theory Spec2Isabelle
  imports Complex_Main "HOL-Library.AList"
begin

section \<open>The PyTorch classifier adapter (\<open>CClassifierPyTorch\<close>)\<close>

text \<open>
  A shallow embedding of \<open>secml/pytorch/classifiers/c_classifier_pytorch.py\<close> and of
  \<open>secml/pytorch/data/c_dataset_pytorch.py\<close>. Python floats are read as \<open>real\<close>
  (the scores of inference as double-precision numbers, where the difference shows),
  Python ints as \<open>int\<close>, class indices and array positions as \<open>nat\<close>. Every
  \<open>raise\<close> of the source is a value of \<open>error\<close>; a method that mutates the
  adapter and may raise returns the pair of its outcome and the adapter as the call
  leaves it, so that what an exception leaves behind is part of the model.
\<close>

subsection \<open>Errors and tensors\<close>

datatype error =
    ValueError string
  | RuntimeError string
  | TypeError string
  | IndexError
  | AttributeError
  | LibraryError string

text \<open>
  \<open>LibraryError\<close> stands for an exception raised inside PyTorch or NumPy whose class
  the adapter's source does not determine (a shape mismatch inside a layer, for example).
\<close>

datatype tensor = Tensor (shape: "nat list") (vals: "real list")

text \<open>
  An array of the library (\<open>CArray\<close>) is flat or two-dimensional; a two-dimensional
  one is the list of its rows.
\<close>

datatype carray = Flat "real list" | Dense "real list list"

fun atleast_2d :: "carray \<Rightarrow> real list list" where
  "atleast_2d (Flat v) = [v]"
| "atleast_2d (Dense rows) = rows"

text \<open>
  Modelled from the spec: \<open>CArray.is_vector_like\<close> is not part of the sources at hand.
  The gradient "operates on exactly one sample (multi-row input is a precondition
  violation)": an array is vector-like when it is flat or has exactly one row.
\<close>

fun is_vector_like :: "carray \<Rightarrow> bool" where
  "is_vector_like (Flat v) = True"
| "is_vector_like (Dense rows) = (length rows = 1)"

subsection \<open>The optimizer handle (\<open>torch.optim.SGD\<close>)\<close>

text \<open>
  The optimizer binds groups of parameters (by name) to their update rule; its numeric
  state is the momentum buffer of each parameter it has stepped.
\<close>

record param_group =
  pg_params :: "string list"
  pg_lr :: real
  pg_momentum :: real
  pg_weight_decay :: real
  pg_initial_lr :: "real option"

record sgd_defaults =
  d_lr :: real
  d_momentum :: real
  d_weight_decay :: real

record sgd =
  defaults :: sgd_defaults
  param_groups :: "param_group list"
  opt_state :: "(string \<times> tensor) list"

text \<open>What \<open>add_weight_decay\<close> or \<open>model.parameters()\<close> hands to the constructor.\<close>

datatype group_spec = GroupSpec (gs_params: "string list") (gs_weight_decay: "real option")

definition SGD :: "group_spec list \<Rightarrow> real \<Rightarrow> real \<Rightarrow> real \<Rightarrow> sgd" where
  "SGD groups lr mom wd =
     \<lparr> defaults = \<lparr> d_lr = lr, d_momentum = mom, d_weight_decay = wd \<rparr>,
       param_groups =
         map (\<lambda>g. \<lparr> pg_params = gs_params g, pg_lr = lr, pg_momentum = mom,
                     pg_weight_decay = (case gs_weight_decay g of None \<Rightarrow> wd | Some v \<Rightarrow> v),
                     pg_initial_lr = None \<rparr>) groups,
       opt_state = [] \<rparr>"

text \<open>The record \<open>optimizer.state_dict()\<close> returns, with the two keys the adapter adds.\<close>

record optimizer_state_dict =
  osd_state :: "(string \<times> tensor) list"
  osd_param_groups :: "param_group list"
  osd_defaults :: "sgd_defaults option"
  osd_regularize_bias :: "bool option"

definition optimizer_state_dict :: "sgd \<Rightarrow> optimizer_state_dict" where
  "optimizer_state_dict opt =
     \<lparr> osd_state = opt_state opt, osd_param_groups = param_groups opt,
       osd_defaults = None, osd_regularize_bias = None \<rparr>"

text \<open>
  \<open>Optimizer.load_state_dict\<close>: the saved groups must match the optimizer's own in
  number and in size; each group keeps its own parameters and takes the saved
  hyperparameters, and the saved buffers are re-keyed, position by position, to the
  optimizer's own parameters.
\<close>

definition rekey :: "string list \<Rightarrow> string list \<Rightarrow> (string \<times> tensor) list \<Rightarrow> (string \<times> tensor) list" where
  "rekey saved own st =
     map (\<lambda>(k, v). (case map_of (zip saved own) k of None \<Rightarrow> k | Some k' \<Rightarrow> k', v)) st"

definition optimizer_load_state_dict :: "sgd \<Rightarrow> optimizer_state_dict \<Rightarrow> error + sgd" where
  "optimizer_load_state_dict opt sd =
     (let groups = param_groups opt; saved = osd_param_groups sd in
      if length groups \<noteq> length saved then
        Inl (ValueError ''loaded state dict has a different number of parameter groups'')
      else if map (length \<circ> pg_params) groups \<noteq> map (length \<circ> pg_params) saved then
        Inl (ValueError ''loaded state dict contains a parameter group that doesn't match the size of optimizer's group'')
      else
        Inr (opt \<lparr> param_groups :=
                     map (\<lambda>(g, s). s \<lparr> pg_params := pg_params g \<rparr>) (zip groups saved),
                   opt_state :=
                     rekey (concat (map pg_params saved)) (concat (map pg_params groups))
                       (osd_state sd) \<rparr>))"

subsection \<open>The model handle\<close>

text \<open>
  The parameters of the network are its state dictionary, an ordered dictionary from
  parameter names to tensors; \<open>training\<close> is the mode flag that \<open>model.train()\<close>
  and \<open>model.eval()\<close> switch.
\<close>

type_synonym pdict = "(string \<times> tensor) list"

record net =
  params :: pdict
  training :: bool

definition parameters :: "net \<Rightarrow> string list" where
  "parameters m = map fst (params m)"

definition endswith :: "string \<Rightarrow> string \<Rightarrow> bool" where
  "endswith s suf = (length suf \<le> length s \<and> drop (length s - length suf) s = suf)"

text \<open>
  Modelled from the spec: \<open>add_weight_decay\<close> (\<open>secml.pytorch.utils.optim_utils\<close>) is
  not part of the sources at hand. It implements the bias-regularization-exclusion
  policy: two groups, the biases with weight decay 0 and the other parameters with the
  given weight decay.
\<close>

definition add_weight_decay :: "net \<Rightarrow> real \<Rightarrow> group_spec list" where
  "add_weight_decay m l2_value =
     [GroupSpec (filter (\<lambda>n. endswith n ''bias'') (parameters m)) (Some 0),
      GroupSpec (filter (\<lambda>n. \<not> endswith n ''bias'') (parameters m)) (Some l2_value)]"

text \<open>\<open>model.load_state_dict\<close> (strict): the keys and the shapes must be the model's own.\<close>

definition model_load_state_dict :: "net \<Rightarrow> pdict \<Rightarrow> error + net" where
  "model_load_state_dict m sd =
     (if set (map fst sd) \<noteq> set (map fst (params m)) then
        Inl (RuntimeError ''Error(s) in loading state_dict: missing or unexpected key(s)'')
      else if \<exists>(k, v) \<in> set (params m). map_option shape (map_of sd k) \<noteq> Some (shape v) then
        Inl (RuntimeError ''Error(s) in loading state_dict: size mismatch'')
      else
        Inr (m \<lparr> params := map (\<lambda>(k, v). (k, the (map_of sd k))) (params m) \<rparr>))"

subsection \<open>The adapter\<close>

record exported_state =
  sd_optimizer :: optimizer_state_dict
  sd_state_dict :: pdict
  sd_epoch :: int
  sd_acc :: "real option"
  sd_best_acc :: "real option"
  sd_input_shape :: "nat list option"

record classifier =
  learning_rate :: real
  momentum :: real
  weight_decay :: real
  loss_id :: string
  epochs :: int
  gamma :: real
  lr_schedule :: "int list"
  batch_size :: int
  regularize_bias :: bool
  input_shape :: "nat list option"
  softmax_outputs :: bool
  start_epoch :: int
  acc_epoch :: real
  best_acc :: real
  random_state :: "nat option"
  model :: net
  optimizer :: sgd
  preprocess :: "(real list list \<Rightarrow> real list list) option"
  classes :: "nat list option"
  n_features :: "nat option"
  warnings :: "string list"

text \<open>\<open>self.logger.warning\<close>; messages of lower levels are not recorded.\<close>

definition logger_warning :: "string \<Rightarrow> classifier \<Rightarrow> classifier" where
  "logger_warning msg clf = clf \<lparr> warnings := warnings clf @ [msg] \<rparr>"

definition init_optimizer :: "classifier \<Rightarrow> classifier" where
  "init_optimizer clf =
     (let ps = (if weight_decay clf \<noteq> 0 \<and> regularize_bias clf = False
                then add_weight_decay (model clf) (weight_decay clf)
                else [GroupSpec (parameters (model clf)) None])
      in clf \<lparr> optimizer := SGD ps (learning_rate clf) (momentum clf) (weight_decay clf) \<rparr>)"

text \<open>The property setters.\<close>

definition set_learning_rate :: "real \<Rightarrow> classifier \<Rightarrow> classifier" where
  "set_learning_rate v clf = init_optimizer (clf \<lparr> learning_rate := v \<rparr>)"

definition set_momentum :: "real \<Rightarrow> classifier \<Rightarrow> classifier" where
  "set_momentum v clf = init_optimizer (clf \<lparr> momentum := v \<rparr>)"

definition set_weight_decay :: "real \<Rightarrow> classifier \<Rightarrow> classifier" where
  "set_weight_decay v clf = init_optimizer (clf \<lparr> weight_decay := v \<rparr>)"

definition set_regularize_bias :: "bool \<Rightarrow> classifier \<Rightarrow> classifier" where
  "set_regularize_bias v clf = clf \<lparr> regularize_bias := v \<rparr>"

definition state_dict :: "classifier \<Rightarrow> exported_state" where
  "state_dict clf =
     \<lparr> sd_optimizer = (optimizer_state_dict (optimizer clf))
         \<lparr> osd_defaults := Some (defaults (optimizer clf)),
           osd_regularize_bias := Some (regularize_bias clf) \<rparr>,
       sd_state_dict = params (model clf),
       sd_epoch = start_epoch clf + 1,
       sd_acc = Some (acc_epoch clf),
       sd_best_acc = Some (best_acc clf),
       sd_input_shape = input_shape clf \<rparr>"

subsection \<open>The tensor engine and the network, at their interface\<close>

text \<open>
  A batch is the list of its samples (the leading axis of the batch tensor). Calling a
  module on a batch gives its output together with the pull-back that
  \<open>backward\<close> runs: from a gradient on the output to the gradient on the input.
\<close>

type_synonym batch = "tensor list"

type_synonym pullback = "batch \<Rightarrow> error + batch"

type_synonym module_fn = "batch \<Rightarrow> error + (batch \<times> pullback)"

text \<open>A tensor that carries its gradient history back to the leaf it was computed from.\<close>

type_synonym var = "batch \<times> pullback"

record meter =
  m_sum :: real
  m_count :: real

text \<open>
  What the adapter consumes of PyTorch and of the network's architecture:
  \<^item> \<open>model_base\<close>: the factory of the network, giving freshly initialised parameters
    under the given seed;
  \<^item> \<open>call\<close>: the network's own \<open>forward\<close>; \<open>modules\<close>: its top-level
    sub-modules in declaration order (\<open>_modules\<close>);
  \<^item> \<open>rand\<close>: \<open>torch.rand(n, *shape)\<close>;
  \<^item> \<open>MultiStepLR\<close> and \<open>scheduler_step\<close>: what constructing the learning rate
    scheduler and stepping it to an epoch do to the optimizer;
  \<^item> \<open>train_loader\<close>: the shuffled batches (samples and one-hot labels) of an epoch;
  \<^item> \<open>CrossEntropyLoss\<close>, \<open>MSELoss\<close>: the two criteria; \<open>backward_step\<close>:
    \<open>zero_grad\<close>, \<open>loss.backward\<close> and \<open>optimizer.step\<close> on a batch;
  \<^item> \<open>performance_score\<close>: the accuracy metric on a batch.
\<close>

record torch =
  model_base :: "nat option \<Rightarrow> pdict"
  call :: "net \<Rightarrow> module_fn"
  modules :: "(string \<times> (net \<Rightarrow> module_fn)) list"
  rand :: "nat \<Rightarrow> nat list \<Rightarrow> batch"
  MultiStepLR :: "int list \<Rightarrow> real \<Rightarrow> int \<Rightarrow> sgd \<Rightarrow> error + sgd"
  scheduler_step :: "int list \<Rightarrow> real \<Rightarrow> int \<Rightarrow> sgd \<Rightarrow> sgd"
  train_loader :: "int \<Rightarrow> real list list \<Rightarrow> real list list \<Rightarrow> nat \<Rightarrow> (batch \<times> batch) list"
  CrossEntropyLoss :: "batch \<Rightarrow> batch \<Rightarrow> real"
  MSELoss :: "batch \<Rightarrow> batch \<Rightarrow> real"
  backward_step :: "string \<Rightarrow> net \<Rightarrow> sgd \<Rightarrow> batch \<Rightarrow> batch \<Rightarrow> net \<times> sgd"
  performance_score :: "batch \<Rightarrow> batch \<Rightarrow> real"

text \<open>The shape of a batch tensor: the number of samples, then the shape of a sample.\<close>

definition batch_shape :: "batch \<Rightarrow> nat list" where
  "batch_shape b = length b # (case b of [] \<Rightarrow> [] | t # _ \<Rightarrow> shape t)"

subsection \<open>Restoring a state (\<open>load_state\<close>)\<close>

text \<open>\<open>k.replace('module.', '')\<close>: every occurrence is removed, left to right.\<close>

function str_remove :: "string \<Rightarrow> string \<Rightarrow> string" where
  "str_remove pat s =
     (if pat = [] \<or> s = [] then s
      else if take (length pat) s = pat then str_remove pat (drop (length pat) s)
      else hd s # str_remove pat (tl s))"
  by pat_completeness auto
termination
  by (relation "measure (\<lambda>(pat, s). length s)") auto

text \<open>
  The conversion of a \<open>DataParallel\<close> state: for each key of the dictionary as it was,
  the value is stored under the renamed key and the key itself is popped.
\<close>

definition dataparallel_keys :: "pdict \<Rightarrow> pdict" where
  "dataparallel_keys d =
     fold (\<lambda>k d. AList.delete k (AList.update (str_remove ''module.'' k) (the (map_of d k)) d))
       (map fst d) d"

text \<open>
  \<open>load_state\<close>, in its three stages. First the hyperparameters of the optimizer
  are taken from the record and the optimizer is recreated when the record has its
  defaults or the bias flag.
\<close>

definition load_defaults :: "classifier \<Rightarrow> optimizer_state_dict \<Rightarrow> classifier" where
  "load_defaults clf osd =
     (let clf1 = (case osd_defaults osd of
                    Some d \<Rightarrow> clf \<lparr> learning_rate := d_lr d, momentum := d_momentum d,
                                   weight_decay := d_weight_decay d \<rparr>
                  | None \<Rightarrow> logger_warning
                      ''State dictionary has no defaults for the optimizer parameters. Keeping current values''
                      clf);
          clf2 = (case osd_regularize_bias osd of
                    Some rb \<Rightarrow> set_regularize_bias rb clf1
                  | None \<Rightarrow> clf1);
          recreate_optimizer = (osd_defaults osd \<noteq> None \<or> osd_regularize_bias osd \<noteq> None)
      in if recreate_optimizer then init_optimizer clf2 else clf2)"

text \<open>
  Last, the input shape is taken from the record when the adapter has none, and the
  feature count and the classes of the base class are restored; the classes come from the
  width of the output of the network on a random input.
\<close>

definition load_input_shape :: "torch \<Rightarrow> classifier \<Rightarrow> nat list option \<Rightarrow> (error + unit) \<times> classifier" where
  "load_input_shape be clf recorded =
     (let clf1 = (if input_shape clf = None then clf \<lparr> input_shape := recorded \<rparr> else clf)
      in (case input_shape clf1 of
            None \<Rightarrow> (Inl (RuntimeError ''`input_shape` is not known. Cannot load state''), clf1)
          | Some shp \<Rightarrow>
              (let clf2 = clf1 \<lparr> n_features := Some (sum_list shp) \<rparr>
               in (case call be (model clf2) (rand be 2 shp) of
                     Inl e \<Rightarrow> (Inl e, clf2)
                   | Inr (out, bw) \<Rightarrow>
                       (Inr (), clf2 \<lparr> classes := Some [0..<last (batch_shape out)] \<rparr>)))))"

text \<open>
  In between, the state of the optimizer, the epoch counter, the accuracies and the
  parameters of the model are restored.
\<close>

definition load_state :: "torch \<Rightarrow> classifier \<Rightarrow> exported_state \<Rightarrow> bool \<Rightarrow> (error + unit) \<times> classifier" where
  "load_state be clf sd dataparallel =
     (let clf1 = load_defaults clf (sd_optimizer sd)
      in (case optimizer_load_state_dict (optimizer clf1) (sd_optimizer sd) of
            Inl e \<Rightarrow> (Inl e, clf1)
          | Inr opt \<Rightarrow>
              (let clf2 = clf1 \<lparr> optimizer := opt, start_epoch := sd_epoch sd,
                                acc_epoch := (case sd_acc sd of None \<Rightarrow> 0 | Some a \<Rightarrow> a),
                                best_acc := (case sd_best_acc sd of None \<Rightarrow> 0 | Some a \<Rightarrow> a) \<rparr>;
                   psd = (if dataparallel then dataparallel_keys (sd_state_dict sd)
                          else sd_state_dict sd)
               in (case model_load_state_dict (model clf2) psd of
                     Inl e \<Rightarrow> (Inl e, clf2)
                   | Inr m \<Rightarrow> load_input_shape be (clf2 \<lparr> model := m \<rparr>) (sd_input_shape sd)))))"

subsection \<open>The sample adapter (\<open>CDatasetPyTorch\<close>) and the test loader\<close>

text \<open>
  The transform of the test loader, \<open>p.reshape(self.input_shape)\<close>: a row of \<open>d\<close>
  features becomes a tensor of the declared input shape, and stays the \<open>1 \<times> d\<close> row
  it is when no shape is declared. Its numeric type cast changes no value here.
\<close>

definition reshape :: "nat list option \<Rightarrow> real list \<Rightarrow> error + tensor" where
  "reshape shp row =
     (case shp of
        None \<Rightarrow> Inr (Tensor [1, length row] row)
      | Some s \<Rightarrow>
          if prod_list s = length row then Inr (Tensor s row)
          else Inl (ValueError ''cannot reshape array''))"

text \<open>\<open>__getitem__\<close> without labels: the sample and the sentinel label \<open>-1\<close>.\<close>

definition getitem :: "nat list option \<Rightarrow> real list list \<Rightarrow> nat \<Rightarrow> error + (tensor \<times> tensor)" where
  "getitem transform X i =
     (if i < length X then
        (case reshape transform (X ! i) of
           Inl e \<Rightarrow> Inl e
         | Inr sample \<Rightarrow> Inr (sample, Tensor [] [- 1]))
      else Inl IndexError)"

record dataloader =
  dl_X :: "real list list"
  dl_batch_size :: nat
  dl_transform :: "nat list option"

text \<open>
  \<open>_get_test_input_loader\<close>: a loader over the rows in their order
  (\<open>shuffle=False\<close>); the loader's constructor refuses a batch size that is not positive.
\<close>

definition u_get_test_input_loader :: "classifier \<Rightarrow> real list list \<Rightarrow> error + dataloader" where
  "u_get_test_input_loader clf x =
     (if batch_size clf \<le> 0 then
        Inl (ValueError ''batch_size should be a positive integer value'')
      else Inr \<lparr> dl_X = x, dl_batch_size = nat (batch_size clf),
                 dl_transform = input_shape clf \<rparr>)"

text \<open>The sequential batch sampler: consecutive runs of rows, the last possibly shorter.\<close>

function chunks :: "nat \<Rightarrow> 'a list \<Rightarrow> 'a list list" where
  "chunks n xs = (if n = 0 \<or> xs = [] then [] else take n xs # chunks n (drop n xs))"
  by pat_completeness auto
termination
  by (relation "measure (\<lambda>(n, xs). length xs)") auto

text \<open>Running a fallible function over a list stops at the first error.\<close>

fun collect :: "('a \<Rightarrow> error + 'b) \<Rightarrow> 'a list \<Rightarrow> error + 'b list" where
  "collect f [] = Inr []"
| "collect f (x # xs) =
     (case f x of
        Inl e \<Rightarrow> Inl e
      | Inr y \<Rightarrow> (case collect f xs of Inl e \<Rightarrow> Inl e | Inr ys \<Rightarrow> Inr (y # ys)))"

text \<open>One batch of the loader: the transformed samples of a run of rows.\<close>

definition collate :: "dataloader \<Rightarrow> real list list \<Rightarrow> error + batch" where
  "collate dl rows = collect (reshape (dl_transform dl)) rows"

definition loader_batches :: "dataloader \<Rightarrow> real list list list" where
  "loader_batches dl = chunks (dl_batch_size dl) (dl_X dl)"

subsection \<open>Inference (\<open>predict\<close>, \<open>decision_function\<close>)\<close>

text \<open>
  Modelled from the spec: \<open>is_clear\<close> belongs to the classifier base class, which is not
  part of the sources at hand. The adapter is clear until a \<open>fit\<close> or a state import
  has set its classes and its feature count.
\<close>

definition is_clear :: "classifier \<Rightarrow> bool" where
  "is_clear clf = (classes clf = None \<and> n_features clf = None)"

text \<open>
  Modelled from the spec: \<open>CSoftmax\<close> is not part of the sources at hand. Its
  \<open>gradient\<close> is the row of the softmax Jacobian that the class index selects,
  evaluated at the given scores; \<open>softmax_row\<close> is the softmax it differentiates.
\<close>

definition softmax_row :: "real list \<Rightarrow> real list" where
  "softmax_row r = map (\<lambda>v. exp v / (\<Sum>u\<leftarrow>r. exp u)) r"

definition CSoftmax_gradient :: "real list \<Rightarrow> nat \<Rightarrow> error + real list" where
  "CSoftmax_gradient s pos_label =
     (if pos_label < length s then
        Inr (map (\<lambda>i. softmax_row s ! pos_label *
                       ((if i = pos_label then 1 else 0) - softmax_row s ! i)) [0..<length s])
      else Inl IndexError)"

text \<open>\<open>argmax\<close>: the first position of the largest score of a row.\<close>

fun first_index :: "'a \<Rightarrow> 'a list \<Rightarrow> nat" where
  "first_index v [] = 0"
| "first_index v (x # xs) = (if x = v then 0 else Suc (first_index v xs))"

definition argmax :: "real list \<Rightarrow> nat" where
  "argmax r = first_index (fold max r (hd r)) r"

text \<open>\<open>tensor.squeeze(1)\<close> on a batch: a leading axis of size one of the samples goes.\<close>

definition squeeze1 :: "batch \<Rightarrow> batch" where
  "squeeze1 b =
     map (\<lambda>t. case shape t of [] \<Rightarrow> t
               | n # s \<Rightarrow> if n = 1 then Tensor s (vals t) else t) b"

subsubsection \<open>Arrays of scores\<close>

text \<open>
  The scores that inference handles are arrays of double-precision numbers
  (\<open>.astype(float)\<close>), which can hold NaN. Like every array of the library such an
  array is flat or two-dimensional, and a flat array of \<open>n\<close> numbers counts as the
  single row of a \<open>1 \<times> n\<close> matrix wherever rows and columns are asked for
  (\<open>rows2d\<close>).
\<close>

datatype float64 = F64 (f64: real) | NaN

datatype farray = FFlat "float64 list" | FDense "float64 list list"

fun rows2d :: "farray \<Rightarrow> float64 list list" where
  "rows2d (FFlat v) = [v]"
| "rows2d (FDense rs) = rs"

definition ncols :: "float64 list list \<Rightarrow> nat" where
  "ncols rs = (case rs of [] \<Rightarrow> 0 | r # _ \<Rightarrow> length r)"

text \<open>
  \<open>CArray(logits.data.cpu().numpy()).astype(float)\<close>: the array takes the shape of the
  batch tensor. A tensor of shape \<open>(N,)\<close> (what \<open>squeeze(1)\<close> leaves of an output of
  shape \<open>(N, 1)\<close>) becomes a flat array, hence a single row of \<open>N\<close> scores; a tensor
  of shape \<open>(N, C)\<close> becomes the matrix with one row of \<open>C\<close> scores for each sample.
  The arrays of the library have no more than two dimensions.
\<close>

definition to_carray :: "batch \<Rightarrow> error + farray" where
  "to_carray b =
     (case batch_shape b of
        [n] \<Rightarrow> Inr (FFlat (map F64 (concat (map vals b))))
      | [n, c] \<Rightarrow> Inr (FDense (map (\<lambda>t. map F64 (vals t)) b))
      | _ \<Rightarrow> Inl (LibraryError ''expected an array of at most two dimensions''))"

text \<open>
  \<open>scores.append(logits, axis=0)\<close>: the rows of the second array come below the rows
  of the first; the two arrays must have the same number of columns.
\<close>

definition append_rows :: "farray \<Rightarrow> farray \<Rightarrow> error + farray" where
  "append_rows a b =
     (if ncols (rows2d a) = ncols (rows2d b) then Inr (FDense (rows2d a @ rows2d b))
      else Inl (ValueError
        ''all the input array dimensions except for the concatenation axis must match exactly''))"

text \<open>\<open>logits[:, y]\<close>: the column of a class, as a matrix of one column.\<close>

definition column :: "nat \<Rightarrow> farray \<Rightarrow> error + farray" where
  "column y a =
     (if list_all (\<lambda>r. y < length r) (rows2d a) then Inr (FDense (map (\<lambda>r. [r ! y]) (rows2d a)))
      else Inl IndexError)"

text \<open>\<open>ravel\<close>: the entries of an array, row after row.\<close>

definition ravel :: "farray \<Rightarrow> float64 list" where
  "ravel a = concat (rows2d a)"

text \<open>
  \<open>scores.argmax(axis=1).ravel()\<close>: for each row the first position of its largest
  entry, a NaN counting as the largest.
\<close>

definition argmax_row :: "float64 list \<Rightarrow> nat" where
  "argmax_row r = (if NaN \<in> set r then first_index NaN r else argmax (map f64 r))"

definition argmax_rows :: "farray \<Rightarrow> error + nat list" where
  "argmax_rows a =
     (if [] \<in> set (rows2d a) then Inl (ValueError ''attempt to get argmax of an empty sequence'')
      else Inr (map argmax_row (rows2d a)))"

text \<open>
  The exponential in double precision, as far as inference can tell it from the real
  one: a value below half of the smallest positive double, which is two to the power
  \<open>-1074\<close>, is rounded to zero (underflow). Rounding to the nearest double is
  otherwise not modelled.
\<close>

definition float_exp :: "real \<Rightarrow> real" where
  "float_exp t = (if exp t < 1 / 2 ^ 1075 then 0 else exp t)"

text \<open>
  Modelled from the spec: \<open>CSoftmax\<close> is not part of the sources at hand. Its
  \<open>softmax\<close> scales every row of the scores to the softmax of the row. The library
  computes it on the two-dimensional view of the array, in double precision, after
  subtracting the largest score of the \<^emph>\<open>whole\<close> array from every score: the
  exponentials are then at most one, each is divided by the sum of its row, and a row all
  of whose exponentials have underflowed comes out as \<open>0 / 0\<close>, which is NaN. A NaN among
  the scores makes the maximum, and with it every entry, NaN.
\<close>

definition CSoftmax_softmax :: "farray \<Rightarrow> error + farray" where
  "CSoftmax_softmax s =
     (let x = rows2d s in
      if concat x = [] then
        Inl (LibraryError ''zero-size array to reduction operation maximum which has no identity'')
      else if NaN \<in> set (concat x) then Inr (FDense (map (map (\<lambda>v. NaN)) x))
      else
        (let m = fold max (map f64 (concat x)) (f64 (hd (concat x)));
             s_exp = map (map (\<lambda>v. float_exp (f64 v - m))) x
         in Inr (FDense (map (\<lambda>r. if sum_list r = 0 then map (\<lambda>v. NaN) r
                                     else map (\<lambda>v. F64 (v / sum_list r)) r) s_exp))))"

definition eval_mode :: "classifier \<Rightarrow> classifier" where
  "eval_mode clf = clf \<lparr> model := (model clf) \<lparr> training := False \<rparr> \<rparr>"

definition train_mode :: "classifier \<Rightarrow> classifier" where
  "train_mode clf = clf \<lparr> model := (model clf) \<lparr> training := True \<rparr> \<rparr>"

definition apply_preprocess :: "classifier \<Rightarrow> real list list \<Rightarrow> real list list" where
  "apply_preprocess clf x = (case preprocess clf of None \<Rightarrow> x | Some nmz \<Rightarrow> nmz x)"

text \<open>
  The forward pass of both inference loops, under \<open>torch.no_grad()\<close>: the network is
  called on the batch, its output is squeezed and converted to an array of scores.
\<close>

definition no_grad_logits :: "torch \<Rightarrow> classifier \<Rightarrow> batch \<Rightarrow> error + farray" where
  "no_grad_logits be clf s =
     (case call be (model clf) s of
        Inl e \<Rightarrow> Inl e
      | Inr (out, bw) \<Rightarrow> to_carray (squeeze1 out))"

text \<open>
  The loop of \<open>_decision_function\<close> over the batches of the loader: \<open>scores\<close> is
  \<open>None\<close> until the first batch has been appended. The softmax scaling is applied to
  the scores of each batch.
\<close>

fun decision_loop :: "torch \<Rightarrow> classifier \<Rightarrow> dataloader \<Rightarrow> nat \<Rightarrow> real list list list \<Rightarrow>
    farray option \<Rightarrow> error + farray option" where
  "decision_loop be clf dl y [] scores = Inr scores"
| "decision_loop be clf dl y (rws # rest) scores =
     (case collate dl rws of
        Inl e \<Rightarrow> Inl e
      | Inr s \<Rightarrow>
          (case no_grad_logits be clf s of
             Inl e \<Rightarrow> Inl e
           | Inr logits0 \<Rightarrow>
               (case (if softmax_outputs clf then CSoftmax_softmax logits0 else Inr logits0) of
                  Inl e \<Rightarrow> Inl e
                | Inr logits1 \<Rightarrow>
                    (case column y logits1 of
                       Inl e \<Rightarrow> Inl e
                     | Inr logits \<Rightarrow>
                         (case (case scores of None \<Rightarrow> Inr logits
                                | Some sc \<Rightarrow> append_rows sc logits) of
                            Inl e \<Rightarrow> Inl e
                          | Inr sc' \<Rightarrow> decision_loop be clf dl y rest (Some sc'))))))"

definition u_decision_function :: "torch \<Rightarrow> classifier \<Rightarrow> real list list \<Rightarrow> nat \<Rightarrow>
    (error + float64 list) \<times> classifier" where
  "u_decision_function be clf x y =
     (if is_clear clf then
        (Inl (ValueError ''make sure the classifier is trained first.''), clf)
      else
        (case u_get_test_input_loader clf x of
           Inl e \<Rightarrow> (Inl e, clf)
         | Inr x_loader \<Rightarrow>
             (let clf' = eval_mode clf in
              (case decision_loop be clf' x_loader y (loader_batches x_loader) None of
                 Inl e \<Rightarrow> (Inl e, clf')
               | Inr None \<Rightarrow> (Inl AttributeError, clf')
               | Inr (Some scores) \<Rightarrow> (Inr (ravel scores), clf')))))"

definition decision_function :: "torch \<Rightarrow> classifier \<Rightarrow> carray \<Rightarrow> nat \<Rightarrow>
    (error + float64 list) \<times> classifier" where
  "decision_function be clf x y = u_decision_function be clf (apply_preprocess clf (atleast_2d x)) y"

text \<open>
  The loop of \<open>predict\<close>: the scores of the batches are appended as they are; the
  softmax scaling is applied afterwards, to the whole array.
\<close>

fun predict_loop :: "torch \<Rightarrow> classifier \<Rightarrow> dataloader \<Rightarrow> real list list list \<Rightarrow>
    farray option \<Rightarrow> error + farray option" where
  "predict_loop be clf dl [] scores = Inr scores"
| "predict_loop be clf dl (rws # rest) scores =
     (case collate dl rws of
        Inl e \<Rightarrow> Inl e
      | Inr s \<Rightarrow>
          (case no_grad_logits be clf s of
             Inl e \<Rightarrow> Inl e
           | Inr logits \<Rightarrow>
               (case (case scores of None \<Rightarrow> Inr logits
                      | Some sc \<Rightarrow> append_rows sc logits) of
                  Inl e \<Rightarrow> Inl e
                | Inr sc' \<Rightarrow> predict_loop be clf dl rest (Some sc'))))"

text \<open>
  \<open>predict\<close> returns the labels, and the scores with them when
  \<open>return_decision_function\<close> is set.
\<close>

definition predict :: "torch \<Rightarrow> classifier \<Rightarrow> carray \<Rightarrow> bool \<Rightarrow>
    (error + (nat list \<times> farray option)) \<times> classifier" where
  "predict be clf x return_decision_function =
     (if is_clear clf then
        (Inl (ValueError ''make sure the classifier is trained first.''), clf)
      else
        (let x_carray = apply_preprocess clf (atleast_2d x) in
         (case u_get_test_input_loader clf x_carray of
            Inl e \<Rightarrow> (Inl e, clf)
          | Inr x_loader \<Rightarrow>
              (let clf' = eval_mode clf in
               (case predict_loop be clf' x_loader (loader_batches x_loader) None of
                  Inl e \<Rightarrow> (Inl e, clf')
                | Inr None \<Rightarrow> (Inl AttributeError, clf')
                | Inr (Some scores0) \<Rightarrow>
                    (case (if softmax_outputs clf' then CSoftmax_softmax scores0
                           else Inr scores0) of
                       Inl e \<Rightarrow> (Inl e, clf')
                     | Inr scores \<Rightarrow>
                         (case argmax_rows scores of
                            Inl e \<Rightarrow> (Inl e, clf')
                          | Inr labels \<Rightarrow>
                              (Inr (labels,
                                    if return_decision_function then Some scores else None),
                               clf'))))))))"

subsection \<open>Layer outputs and gradients (\<open>_get_layer_output\<close>, \<open>_gradient_f\<close>)\<close>

text \<open>\<open>Variable(s, requires_grad=True)\<close>: a leaf, whose gradient is what reaches it.\<close>

definition leaf :: "batch \<Rightarrow> var" where
  "leaf s = (s, \<lambda>g. Inr g)"

text \<open>Calling a module on a tracked tensor extends the history by the module's pull-back.\<close>

definition apply_module :: "module_fn \<Rightarrow> var \<Rightarrow> error + var" where
  "apply_module m s =
     (case m (fst s) of
        Inl e \<Rightarrow> Inl e
      | Inr (out, bw) \<Rightarrow>
          Inr (out, \<lambda>g. case bw g of Inl e \<Rightarrow> Inl e | Inr g' \<Rightarrow> snd s g'))"

text \<open>
  The \<open>for ... else\<close> over \<open>_modules\<close>: each module is applied in turn, the loop breaks
  at the module of the requested name, and running off the end raises.
\<close>

fun iterate_modules :: "(string \<times> module_fn) list \<Rightarrow> string \<Rightarrow> var \<Rightarrow> error + var" where
  "iterate_modules [] layer s = Inl (ValueError (''No layer `'' @ layer @ ''` found!''))"
| "iterate_modules ((m_k, m) # rest) layer s =
     (case apply_module m s of
        Inl e \<Rightarrow> Inl e
      | Inr s' \<Rightarrow> if m_k = layer then Inr s' else iterate_modules rest layer s')"

definition u_get_layer_output :: "torch \<Rightarrow> classifier \<Rightarrow> var \<Rightarrow> string option \<Rightarrow>
    (error + var) \<times> classifier" where
  "u_get_layer_output be clf s layer =
     (let clf' = eval_mode clf in
      (case layer of
         None \<Rightarrow> (apply_module (call be (model clf')) s, clf')
       | Some l \<Rightarrow>
           (iterate_modules (map (\<lambda>(m_k, m). (m_k, m (model clf'))) (modules be)) l s, clf')))"

text \<open>
  \<open>out.unsqueeze(0)\<close>: the batch becomes the single sample of a new batch; the gradient
  that comes back for it is split into the samples again.
\<close>

definition unsqueeze0 :: "batch \<Rightarrow> batch" where
  "unsqueeze0 b = [Tensor (batch_shape b) (concat (map vals b))]"

definition squeeze0 :: "batch \<Rightarrow> batch" where
  "squeeze0 b =
     (case b of
        [t] \<Rightarrow>
          (case shape t of
             [] \<Rightarrow> b
           | n # s \<Rightarrow>
               map (\<lambda>i. Tensor s (take (prod_list s) (drop (i * prod_list s) (vals t)))) [0..<n])
      | _ \<Rightarrow> b)"

definition unsqueeze_var :: "var \<Rightarrow> var" where
  "unsqueeze_var out = (unsqueeze0 (fst out), \<lambda>g. snd out (squeeze0 g))"

definition one_hot :: "nat \<Rightarrow> nat \<Rightarrow> real list" where
  "one_hot n y = map (\<lambda>i. if i = y then 1 else 0) [0..<n]"

text \<open>
  \<open>w_in *= softmax_grad\<close>, element by element along the rows of the seed (a gradient of
  a single score is broadcast).
\<close>

definition scale_seed :: "real list list \<Rightarrow> real list \<Rightarrow> error + real list list" where
  "scale_seed w_in g =
     (if list_all (\<lambda>r. length r = length g) w_in then Inr (map (\<lambda>r. map2 (*) r g) w_in)
      else if length g = 1 then Inr (map (map (\<lambda>v. v * g ! 0)) w_in)
      else Inl (LibraryError ''shapes cannot be broadcast''))"

text \<open>
  \<open>_gradient_f\<close>. The scores that the softmax gradient is taken at,
  \<open>out.squeeze(0)\<close> as an array, are the scores of the single sample, flattened.
\<close>

definition u_gradient_f :: "torch \<Rightarrow> classifier \<Rightarrow> carray \<Rightarrow> nat option \<Rightarrow> carray option \<Rightarrow>
    string option \<Rightarrow> (error + real list) \<times> classifier" where
  "u_gradient_f be clf x y w layer =
     (if is_vector_like x = False then
        (Inl (ValueError ''gradient can be computed on one sample only.''), clf)
      else
        (case u_get_test_input_loader clf (atleast_2d x) of
           Inl e \<Rightarrow> (Inl e, clf)
         | Inr dl \<Rightarrow>
             (case getitem (dl_transform dl) (dl_X dl) 0 of
                Inl e \<Rightarrow> (Inl e, clf)
              | Inr (s0, label) \<Rightarrow>
                  (let s = leaf [s0] in
                   (case u_get_layer_output be clf s layer of
                      (Inl e, clf') \<Rightarrow> (Inl e, clf')
                    | (Inr out0, clf') \<Rightarrow>
                        (let out = (if length (batch_shape (fst out0)) < length (batch_shape (fst s))
                                    then unsqueeze_var out0 else out0);
                             w_in0 =
                               (case w of
                                  None \<Rightarrow>
                                    (if layer \<noteq> None then
                                       Inl (ValueError
                                         ''grad can be implicitly created only for the last layer. `w` is needed when `layer` is not None.'')
                                     else
                                       (case y of
                                          None \<Rightarrow>
                                            Inl (ValueError
                                              ''The class label wrt compute the gradient at the last layer is required.'')
                                        | Some k \<Rightarrow>
                                            if k < last (batch_shape (fst out)) then
                                              Inr [one_hot (last (batch_shape (fst out))) k]
                                            else Inl IndexError))
                                | Some wv \<Rightarrow> Inr (atleast_2d wv))
                         in (case w_in0 of
                               Inl e \<Rightarrow> (Inl e, clf')
                             | Inr w_in1 \<Rightarrow>
                                 (let scaled =
                                        (if layer = None \<and> softmax_outputs clf' = True then
                                           (case y of
                                              None \<Rightarrow> (Inl (LibraryError ''pos_label''), clf')
                                            | Some k \<Rightarrow>
                                                (case CSoftmax_gradient
                                                        (concat (map vals (fst out))) k of
                                                   Inl e \<Rightarrow> (Inl e, clf')
                                                 | Inr softmax_grad \<Rightarrow>
                                                     (scale_seed w_in1 softmax_grad, clf')))
                                         else if w \<noteq> None \<and> y \<noteq> None then
                                           (Inr w_in1, logger_warning ''`y` will be ignored!'' clf')
                                         else (Inr w_in1, clf'))
                                  in (case scaled of
                                        (Inl e, clf'') \<Rightarrow> (Inl e, clf'')
                                      | (Inr w_in, clf'') \<Rightarrow>
                                          (case snd out [Tensor [length w_in,
                                                             (case w_in of [] \<Rightarrow> 0
                                                              | r # rs \<Rightarrow> length r)]
                                                           (concat w_in)] of
                                             Inl e \<Rightarrow> (Inl e, clf'')
                                           | Inr grad \<Rightarrow>
                                               (Inr (concat (map vals grad)), clf'')))))))))))"

subsection \<open>Training (\<open>fit\<close>, \<open>_fit\<close>)\<close>

text \<open>
  Modelled from the spec: the dataset container is not part of the sources at hand. It
  "exposes feature matrix, label vector, class count, feature count, and a binarized
  (one-hot) label view".
\<close>

record dataset =
  ds_X :: "real list list"
  ds_Y :: "nat list"
  num_features :: nat

definition ds_classes :: "dataset \<Rightarrow> nat list" where
  "ds_classes ds = sorted_list_of_set (set (ds_Y ds))"

definition get_labels_asbinary :: "dataset \<Rightarrow> real list list" where
  "get_labels_asbinary ds = map (\<lambda>y. map (\<lambda>c. if c = y then 1 else 0) (ds_classes ds)) (ds_Y ds)"

text \<open>
  Modelled from the spec: \<open>AverageMeter\<close> is not part of the sources at hand; it
  accumulates the "running average" of the values it is updated with, weighted by the
  batch sizes, starting from 0.
\<close>

definition meter_update :: "real \<Rightarrow> nat \<Rightarrow> meter \<Rightarrow> meter" where
  "meter_update v n m = \<lparr> m_sum = m_sum m + v * real n, m_count = m_count m + real n \<rparr>"

definition avg :: "meter \<Rightarrow> real" where
  "avg m = (if m_count m = 0 then 0 else m_sum m / m_count m)"

text \<open>The loss of the adapter on the scores and the one-hot targets of a batch.\<close>

definition loss :: "torch \<Rightarrow> classifier \<Rightarrow> batch \<Rightarrow> batch \<Rightarrow> error + real" where
  "loss be clf x target =
     (let x = squeeze1 x in
      if loss_id clf = ''cross-entropy'' then Inr (CrossEntropyLoss be x target)
      else if loss_id clf = ''mse'' then Inr (MSELoss be x target)
      else Inl (ValueError (''loss `'' @ loss_id clf @ ''` not supported'')))"

text \<open>The loop over the batches of one epoch, with the two meters of the epoch.\<close>

fun train_batches :: "torch \<Rightarrow> classifier \<Rightarrow> (batch \<times> batch) list \<Rightarrow> meter \<Rightarrow> meter \<Rightarrow>
    (error + meter \<times> meter) \<times> classifier" where
  "train_batches be clf [] losses acc = (Inr (losses, acc), clf)"
| "train_batches be clf ((x, y0) # rest) losses acc =
     (let y = squeeze1 y0 in
      (case call be (model clf) x of
         Inl e \<Rightarrow> (Inl e, clf)
       | Inr (logits, bw) \<Rightarrow>
           (case loss be clf logits y of
              Inl e \<Rightarrow> (Inl e, clf)
            | Inr l \<Rightarrow>
                (let stepped = backward_step be (loss_id clf) (model clf) (optimizer clf) x y;
                     clf' = clf \<lparr> model := fst stepped, optimizer := snd stepped \<rparr>
                 in train_batches be clf' rest
                      (meter_update l (length x) losses)
                      (meter_update (performance_score be y logits) (length x) acc)))))"

text \<open>
  The body of the epoch loop up to the assignment of \<open>self._acc\<close>: the epoch counter
  is the loop variable, the scheduler is stepped, the batches are trained on.
\<close>

definition train_epoch :: "torch \<Rightarrow> dataset \<Rightarrow> classifier \<Rightarrow> int \<Rightarrow> (error + unit) \<times> classifier" where
  "train_epoch be ds clf e =
     (let clf1 = clf \<lparr> start_epoch := e \<rparr>;
          clf2 = clf1 \<lparr> optimizer :=
                   scheduler_step be (lr_schedule clf1) (gamma clf1) e (optimizer clf1) \<rparr>
      in (case train_batches be clf2
                (train_loader be e (ds_X ds) (get_labels_asbinary ds) (nat (batch_size clf2)))
                \<lparr> m_sum = 0, m_count = 0 \<rparr> \<lparr> m_sum = 0, m_count = 0 \<rparr> of
            (Inl err, clf3) \<Rightarrow> (Inl err, clf3)
          | (Inr (losses, acc), clf3) \<Rightarrow> (Inr (), clf3 \<lparr> acc_epoch := avg acc \<rparr>)))"

text \<open>
  The end of the epoch body: the epoch is skipped as a candidate when the best parameters
  are to be stored and its accuracy is below the best one; otherwise it becomes the best
  epoch and the state of the adapter is copied.
\<close>

definition store_epoch :: "bool \<Rightarrow> classifier \<times> int \<times> exported_state \<Rightarrow>
    classifier \<times> int \<times> exported_state" where
  "store_epoch store_best_params st =
     (case st of (clf, best_epoch, best_state_dict) \<Rightarrow>
        if store_best_params = True \<and> acc_epoch clf < best_acc clf then
          (clf, best_epoch, best_state_dict)
        else
          (let clf' = clf \<lparr> best_acc := acc_epoch clf \<rparr>
           in (clf', start_epoch clf', state_dict clf')))"

fun fit_epochs :: "torch \<Rightarrow> dataset \<Rightarrow> bool \<Rightarrow> int list \<Rightarrow> classifier \<times> int \<times> exported_state \<Rightarrow>
    (error + unit) \<times> classifier \<times> int \<times> exported_state" where
  "fit_epochs be ds store_best_params [] st = (Inr (), st)"
| "fit_epochs be ds store_best_params (e # es) (clf, best) =
     (case train_epoch be ds clf e of
        (Inl err, clf') \<Rightarrow> (Inl err, clf', best)
      | (Inr u, clf') \<Rightarrow> fit_epochs be ds store_best_params es (store_epoch store_best_params (clf', best)))"

definition u_fit :: "torch \<Rightarrow> classifier \<Rightarrow> dataset \<Rightarrow> bool \<Rightarrow> (error + unit) \<times> classifier" where
  "u_fit be clf ds store_best_params =
     (if start_epoch clf \<ge> epochs clf then
        (Inr (),
         logger_warning ''Maximum number of epochs reached, no training will be performed.'' clf)
      else if batch_size clf \<le> 0 then
        (Inl (ValueError ''batch_size should be a positive integer value''), clf)
      else
        (let clf1 = train_mode clf in
         (case MultiStepLR be (lr_schedule clf1) (gamma clf1) (start_epoch clf1 - 1)
                 (optimizer clf1) of
            Inl e \<Rightarrow> (Inl e, clf1)
          | Inr opt \<Rightarrow>
              (let clf2 = clf1 \<lparr> optimizer := opt \<rparr>;
                   best_epoch = start_epoch clf2;
                   best_state_dict = state_dict clf2
               in (case fit_epochs be ds store_best_params [start_epoch clf2..epochs clf2 - 1]
                         (clf2, best_epoch, best_state_dict) of
                     (Inl e, clf3, best) \<Rightarrow> (Inl e, clf3)
                   | (Inr u, clf3, best) \<Rightarrow> load_state be clf3 (snd best) False)))))"

text \<open>
  Modelled from the spec: \<open>clear\<close> belongs to the base class, which is not part of the
  sources at hand; it takes the adapter back to the state in which nothing is trained.
\<close>

definition clear :: "classifier \<Rightarrow> classifier" where
  "clear clf = clf \<lparr> classes := None, n_features := None \<rparr>"

definition init_model :: "torch \<Rightarrow> classifier \<Rightarrow> classifier" where
  "init_model be clf =
     clf \<lparr> model := \<lparr> params = model_base be (random_state clf), training = True \<rparr> \<rparr>"

definition fit :: "torch \<Rightarrow> classifier \<Rightarrow> dataset \<Rightarrow> bool \<Rightarrow> bool \<Rightarrow> (error + unit) \<times> classifier" where
  "fit be clf ds warm_start store_best_params =
     (let clf0 = (if preprocess clf \<noteq> None then
                    logger_warning
                      ''preprocess is not applied to training data. Use `train_transform` parameter if necessary.''
                      clf
                  else clf);
          clf1 = (if warm_start = False then
                    (let c1 = clear clf0;
                         c2 = c1 \<lparr> classes := Some (ds_classes ds),
                                   n_features := Some (num_features ds) \<rparr>;
                         c3 = init_model be c2;
                         c4 = c3 \<lparr> start_epoch := 0, best_acc := 0, acc_epoch := 0 \<rparr>
                     in init_optimizer c4)
                  else clf0)
      in u_fit be clf1 ds store_best_params)"

section \<open>Specifications\<close>

subsection \<open>The optimizer is bound to the model\<close>

text \<open>
  The optimizer handle is bound to the current parameter set of the model under the
  current hyperparameters of the adapter: recreating it now would group the same
  parameters, and its default weight decay is the adapter's.
\<close>

definition optimizer_bound :: "classifier \<Rightarrow> bool" where
  "optimizer_bound clf =
     (d_weight_decay (defaults (optimizer clf)) = weight_decay clf \<and>
      map pg_params (param_groups (optimizer clf)) =
        map pg_params (param_groups (optimizer (init_optimizer clf))))"

text \<open>Two adapters of one architecture: the same parameter names and shapes, in order.\<close>

definition same_architecture :: "classifier \<Rightarrow> classifier \<Rightarrow> bool" where
  "same_architecture a b =
     (map (\<lambda>(k, v). (k, shape v)) (params (model a)) =
        map (\<lambda>(k, v). (k, shape v)) (params (model b)) \<and>
      distinct (map fst (params (model a))))"

text \<open>What inference reads of the configuration of an adapter, besides the model.\<close>

definition same_inference_setup :: "classifier \<Rightarrow> classifier \<Rightarrow> bool" where
  "same_inference_setup a b =
     (batch_size a = batch_size b \<and> softmax_outputs a = softmax_outputs b \<and>
      preprocess a = preprocess b \<and>
      (input_shape b = None \<or> input_shape b = input_shape a))"

subsection \<open>Inference, row by row\<close>

text \<open>The shape that the transform of the test loader gives a row of \<open>d\<close> features.\<close>

definition sample_shape :: "nat list option \<Rightarrow> nat \<Rightarrow> nat list" where
  "sample_shape shp d = (case shp of None \<Rightarrow> [1, d] | Some s \<Rightarrow> s)"

text \<open>
  The network \<open>m\<close> treats the samples of a batch one by one, and the adapter reads
  its output on a batch as a matrix with a row for each sample: on every batch of
  samples of shape \<open>s\<close>, the array of scores that the forward pass of the inference
  loops makes of the output of \<open>m\<close> is the matrix whose rows are the \<open>c\<close> scores
  that \<open>g\<close> gives each sample, in the order of the samples. (The output of a network
  of shape \<open>(N, 1)\<close> is not read so: it becomes a flat array.)
\<close>

definition samplewise :: "torch \<Rightarrow> net \<Rightarrow> nat list \<Rightarrow> nat \<Rightarrow> (tensor \<Rightarrow> error + real list) \<Rightarrow> bool" where
  "samplewise be m s c g =
     ((\<forall>t r. g t = Inr r \<longrightarrow> length r = c) \<and>
      (\<forall>b. b \<noteq> [] \<and> list_all (\<lambda>t. shape t = s) b \<longrightarrow>
         (case call be m b of
            Inl e \<Rightarrow> Inl e
          | Inr (out, bw) \<Rightarrow> to_carray (squeeze1 out)) =
         (case collect g b of
            Inl e \<Rightarrow> Inl e
          | Inr rs \<Rightarrow> Inr (FDense (map (map F64) rs)))))"

text \<open>
  Prediction as the spec words it, without batches: every input row is reshaped and
  scored in its turn, the scores are softmax-scaled if configured, and the label of a
  row is the arg-max of its scores.
\<close>

definition predict_rows :: "(tensor \<Rightarrow> error + real list) \<Rightarrow> classifier \<Rightarrow> carray \<Rightarrow> bool \<Rightarrow>
    error + (nat list \<times> farray option)" where
  "predict_rows g clf x return_scores =
     (if is_clear clf then Inl (ValueError ''make sure the classifier is trained first.'')
      else
        (case collect (\<lambda>row. case reshape (input_shape clf) row of
                                 Inl e \<Rightarrow> Inl e | Inr s \<Rightarrow> g s)
                (apply_preprocess clf (atleast_2d x)) of
           Inl e \<Rightarrow> Inl e
         | Inr [] \<Rightarrow> Inl AttributeError
         | Inr (r # rs) \<Rightarrow>
             (case (if softmax_outputs clf
                    then CSoftmax_softmax (FDense (map (map F64) (r # rs)))
                    else Inr (FDense (map (map F64) (r # rs)))) of
                Inl e \<Rightarrow> Inl e
              | Inr scores \<Rightarrow>
                  (case argmax_rows scores of
                     Inl e \<Rightarrow> Inl e
                   | Inr labels \<Rightarrow>
                       Inr (labels, if return_scores then Some scores else None)))))"

subsection \<open>Layer lookup\<close>



subsection \<open>The output a gradient starts from\<close>

text \<open>
  The output of the whole network on one sample, tracked back to the sample, and
  unsqueezed when it has a lower rank than its input: what \<open>_gradient_f\<close> calls
  \<open>backward\<close> on when no layer is named.
\<close>

definition tracked_output :: "torch \<Rightarrow> classifier \<Rightarrow> tensor \<Rightarrow> error + var" where
  "tracked_output be clf s0 =
     (case apply_module (call be (model (eval_mode clf))) (leaf [s0]) of
        Inl e \<Rightarrow> Inl e
      | Inr out0 \<Rightarrow>
          Inr (if length (batch_shape (fst out0)) < length (batch_shape [s0])
               then unsqueeze_var out0 else out0))"

subsection \<open>The epochs of a training run\<close>

text \<open>
  The adapter as it stands at the end of each epoch of the loop, when the accuracy of the
  epoch has been assigned and before the epoch is compared with the best one.
\<close>

fun epoch_ends :: "torch \<Rightarrow> dataset \<Rightarrow> bool \<Rightarrow> int list \<Rightarrow> classifier \<times> int \<times> exported_state \<Rightarrow>
    classifier list" where
  "epoch_ends be ds store_best_params [] st = []"
| "epoch_ends be ds store_best_params (e # es) (clf, best) =
     (case train_epoch be ds clf e of
        (Inl err, clf') \<Rightarrow> []
      | (Inr u, clf') \<Rightarrow>
          clf' # epoch_ends be ds store_best_params es (store_epoch store_best_params (clf', best)))"

definition fit_epoch_ends :: "torch \<Rightarrow> classifier \<Rightarrow> dataset \<Rightarrow> bool \<Rightarrow> classifier list" where
  "fit_epoch_ends be clf ds store_best_params =
     (let clf1 = train_mode clf in
      (case MultiStepLR be (lr_schedule clf1) (gamma clf1) (start_epoch clf1 - 1)
              (optimizer clf1) of
         Inl e \<Rightarrow> []
       | Inr opt \<Rightarrow>
           (let clf2 = clf1 \<lparr> optimizer := opt \<rparr>
            in epoch_ends be ds store_best_params [start_epoch clf2..epochs clf2 - 1]
                 (clf2, start_epoch clf2, state_dict clf2))))"

text \<open>The state that is copied when an epoch becomes the best one.\<close>

definition snapshot :: "classifier \<Rightarrow> exported_state" where
  "snapshot clf = state_dict (clf \<lparr> best_acc := acc_epoch clf \<rparr>)"

section \<open>A network of one linear layer\<close>

text \<open>
  An instance of the interface: the network \<open>fc = nn.Linear(d, C)\<close>, whose parameters
  are the \<open>C \<times> d\<close> weight matrix \<open>fc.weight\<close> and the bias \<open>fc.bias\<close>. On a
  sample \<open>x\<close> it computes \<open>W x + b\<close>; its pull-back takes a gradient \<open>g\<close> on the
  output to \<open>W\<^sup>T g\<close>.
\<close>

definition matvec :: "real list list \<Rightarrow> real list \<Rightarrow> real list" where
  "matvec W x = map (\<lambda>row. sum_list (map2 (*) row x)) W"

definition vecmat :: "real list \<Rightarrow> real list list \<Rightarrow> nat \<Rightarrow> real list" where
  "vecmat g W d = map (\<lambda>j. sum_list (map2 (\<lambda>gi row. gi * row ! j) g W)) [0..<d]"

definition Linear :: "real list list \<Rightarrow> real list \<Rightarrow> nat \<Rightarrow> module_fn" where
  "Linear W b d xs =
     (if list_all (\<lambda>x. length (vals x) = d) xs then
        Inr (map (\<lambda>x. Tensor (butlast (shape x) @ [length W])
                        (map2 (+) (matvec W (vals x)) b)) xs,
             \<lambda>g. if length g = length xs \<and> list_all (\<lambda>t. length (vals t) = length W) g
                  then Inr (map2 (\<lambda>x t. Tensor (shape x) (vecmat (vals t) W d)) xs g)
                  else Inl (LibraryError ''Mismatch in shape''))
      else Inl (LibraryError ''size mismatch''))"

definition lookup :: "pdict \<Rightarrow> string \<Rightarrow> real list" where
  "lookup d k = (case map_of d k of None \<Rightarrow> [] | Some t \<Rightarrow> vals t)"

definition fc :: "nat \<Rightarrow> net \<Rightarrow> module_fn" where
  "fc d m = Linear (chunks d (lookup (params m) ''fc.weight'')) (lookup (params m) ''fc.bias'') d"

definition linear_params :: "real list list \<Rightarrow> real list \<Rightarrow> nat \<Rightarrow> pdict" where
  "linear_params W b d =
     [(''fc.weight'', Tensor [length W, d] (concat W)), (''fc.bias'', Tensor [length b] b)]"

text \<open>The fraction of the samples of a batch whose largest score is at the label.\<close>

definition batch_accuracy :: "batch \<Rightarrow> batch \<Rightarrow> real" where
  "batch_accuracy y logits =
     real (length (filter (\<lambda>(t, l). argmax (vals l) = argmax (vals t)) (zip y logits))) /
     real (length logits)"

definition sum_squares :: "batch \<Rightarrow> batch \<Rightarrow> real" where
  "sum_squares x target =
     sum_list (map2 (\<lambda>a t. sum_list (map2 (\<lambda>u v. (u - v)\<^sup>2) (vals a) (vals t))) x target)"

definition neg_log_likelihood :: "batch \<Rightarrow> batch \<Rightarrow> real" where
  "neg_log_likelihood x target =
     sum_list (map2 (\<lambda>a t. - ln (softmax_row (vals a) ! argmax (vals t))) x target) /
     real (length x)"

text \<open>
  The scheduler multiplies the initial learning rate of every group by \<open>gamma\<close> once
  for each milestone the epoch has reached; it can only resume from an optimizer whose
  groups record their initial learning rate.
\<close>

definition multi_step_lr :: "int list \<Rightarrow> real \<Rightarrow> int \<Rightarrow> sgd \<Rightarrow> error + sgd" where
  "multi_step_lr milestones g last_epoch opt =
     (if last_epoch = - 1 then
        Inr (opt \<lparr> param_groups :=
               map (\<lambda>p. p \<lparr> pg_initial_lr :=
                      Some (case pg_initial_lr p of None \<Rightarrow> pg_lr p | Some l \<Rightarrow> l) \<rparr>)
                 (param_groups opt) \<rparr>)
      else if list_all (\<lambda>p. pg_initial_lr p \<noteq> None) (param_groups opt) then Inr opt
      else Inl (LibraryError ''initial_lr is not specified in param_groups''))"

definition multi_step :: "int list \<Rightarrow> real \<Rightarrow> int \<Rightarrow> sgd \<Rightarrow> sgd" where
  "multi_step milestones g e opt =
     opt \<lparr> param_groups :=
       map (\<lambda>p. p \<lparr> pg_lr := (case pg_initial_lr p of None \<Rightarrow> pg_lr p | Some l \<Rightarrow> l) *
                              g ^ length (filter (\<lambda>m. m \<le> e) milestones) \<rparr>)
         (param_groups opt) \<rparr>"

text \<open>
  A stand-in for one optimisation step: every parameter moves down by the learning rate
  of the first group. The batches of an epoch are taken in the order of the data.
\<close>

definition descend :: "string \<Rightarrow> net \<Rightarrow> sgd \<Rightarrow> batch \<Rightarrow> batch \<Rightarrow> net \<times> sgd" where
  "descend lid m opt x y =
     (m \<lparr> params :=
          map (\<lambda>(k, t). (k, Tensor (shape t)
                 (map (\<lambda>v. v - (case param_groups opt of [] \<Rightarrow> 0 | p # ps \<Rightarrow> pg_lr p)) (vals t))))
            (params m) \<rparr>,
      opt)"

definition ordered_batches :: "int \<Rightarrow> real list list \<Rightarrow> real list list \<Rightarrow> nat \<Rightarrow> (batch \<times> batch) list" where
  "ordered_batches e X Y n =
     map (\<lambda>c. (map (\<lambda>(x, y). Tensor [1, length x] x) c, map (\<lambda>(x, y). Tensor [1, length y] y) c))
       (chunks n (zip X Y))"

definition linear_torch :: "nat \<Rightarrow> nat \<Rightarrow> torch" where
  "linear_torch d c =
     \<lparr> model_base = (\<lambda>seed. linear_params (replicate c (replicate d 0)) (replicate c 0) d),
       call = fc d,
       modules = [(''fc'', fc d)],
       rand = (\<lambda>n shp. replicate n (Tensor shp (replicate (prod_list shp) (1 / 2)))),
       MultiStepLR = multi_step_lr,
       scheduler_step = multi_step,
       train_loader = ordered_batches,
       CrossEntropyLoss = neg_log_likelihood,
       MSELoss = sum_squares,
       backward_step = descend,
       performance_score = batch_accuracy \<rparr>"

text \<open>A trained adapter around the layer with weights \<open>W\<close> and bias \<open>b\<close>.\<close>

definition linear_classifier :: "real list list \<Rightarrow> real list \<Rightarrow> nat \<Rightarrow> classifier" where
  "linear_classifier W b d =
     init_optimizer
       \<lparr> learning_rate = 1 / 100, momentum = 9 / 10, weight_decay = 1 / 10000,
         loss_id = ''cross-entropy'', epochs = 2, gamma = 1 / 10, lr_schedule = [50, 75],
         batch_size = 1, regularize_bias = True, input_shape = Some [d],
         softmax_outputs = False, start_epoch = 0, acc_epoch = 0, best_acc = 0,
         random_state = None,
         model = \<lparr> params = linear_params W b d, training = True \<rparr>,
         optimizer = SGD [] 0 0 0,
         preprocess = None, classes = Some [0..<length W], n_features = Some d,
         warnings = [] \<rparr>"

definition demo_classifier :: classifier where
  "demo_classifier = linear_classifier [[1, 2], [3, 4]] [0, 0] 2"

definition demo_dataset :: dataset where
  "demo_dataset = \<lparr> ds_X = [[1, 0], [0, 1]], ds_Y = [0, 1], num_features = 2 \<rparr>"

text \<open>The scores the layer gives one sample.\<close>

definition fc_row :: "nat \<Rightarrow> net \<Rightarrow> tensor \<Rightarrow> error + real list" where
  "fc_row d m t =
     (if length (vals t) = d then
        Inr (map2 (+) (matvec (chunks d (lookup (params m) ''fc.weight'')) (vals t))
               (lookup (params m) ''fc.bias''))
      else Inl (LibraryError ''size mismatch''))"

text \<open>A freshly constructed adapter of the same architecture: nothing trained, no input shape.\<close>

definition demo_fresh :: classifier where
  "demo_fresh = (linear_classifier [[0, 0], [0, 0]] [0, 0] 2)
     \<lparr> input_shape := None, classes := None, n_features := None \<rparr>"

section \<open>Verification\<close>

subsection \<open>Facts about the instance\<close>

lemma demo_fields [simp]:
  "epochs demo_classifier = 2" "start_epoch demo_classifier = 0"
  "batch_size demo_classifier = 1" "input_shape demo_classifier = Some [2]"
  "softmax_outputs demo_classifier = False" "preprocess demo_classifier = None"
  "classes demo_classifier = Some [0, 1]" "n_features demo_classifier = Some 2"
  "warnings demo_classifier = []" "regularize_bias demo_classifier = True"
  "weight_decay demo_classifier = 1 / 10000"
  "params (model demo_classifier) =
     [(''fc.weight'', Tensor [2, 2] [1, 2, 3, 4]), (''fc.bias'', Tensor [2] [0, 0])]"
  by (simp_all add: demo_classifier_def linear_classifier_def init_optimizer_def
        linear_params_def Let_def upt_rec)

subsection \<open>The training loop with no epoch left\<close>

text \<open>
  Claim C3. If the training loop is entered with \<open>start_epoch \<ge> epochs\<close>, it performs
  no epoch and emits a warning: the call succeeds, and the adapter it leaves is the
  adapter it found with one more warning, so the parameters of the model and the
  state of the optimizer are what they were.
\<close>

theorem fit_zero_epochs:
  assumes "start_epoch clf \<ge> epochs clf"
  shows "u_fit be clf ds store_best_params =
           (Inr (), clf \<lparr> warnings := warnings clf @
              [''Maximum number of epochs reached, no training will be performed.''] \<rparr>)"
  using assms by (simp add: u_fit_def logger_warning_def)

theorem fit_zero_epochs_witness:
  "u_fit (linear_torch 2 2) (demo_classifier \<lparr> start_epoch := 2 \<rparr>) demo_dataset True =
     (Inr (), demo_classifier \<lparr> start_epoch := 2, warnings :=
        [''Maximum number of epochs reached, no training will be performed.''] \<rparr>)"
  using fit_zero_epochs [of "demo_classifier \<lparr> start_epoch := 2 \<rparr>" "linear_torch 2 2"
      demo_dataset True]
  by simp

subsection \<open>The gradient of an input of several rows\<close>

text \<open>
  Claim C8. The gradient of an input that is not a single sample raises the error
  "gradient can be computed on one sample only" at once: whatever the network, the
  class, the direction and the layer are, and the adapter is left as it was, not even
  switched to evaluation mode, so no forward pass has begun.
\<close>

theorem gradient_multi_row:
  assumes "\<not> is_vector_like x"
  shows "u_gradient_f be clf x y w layer =
           (Inl (ValueError ''gradient can be computed on one sample only.''), clf)"
  using assms by (simp add: u_gradient_f_def)

theorem gradient_multi_row_witness:
  "u_gradient_f (linear_torch 2 2) demo_classifier (Dense [[5, 6], [7, 8]]) (Some 1) None None =
     (Inl (ValueError ''gradient can be computed on one sample only.''), demo_classifier)"
  using gradient_multi_row [of "Dense [[5, 6], [7, 8]]" "linear_torch 2 2" demo_classifier
      "Some 1" None None]
  by simp

subsection \<open>Layer lookup\<close>






subsection \<open>What a state import restores of the base class\<close>

lemma load_input_shape_ok:
  assumes "load_input_shape be clf r = (Inr (), clf')"
  shows "\<exists>shp out bw. input_shape clf' = Some shp \<and> n_features clf' = Some (sum_list shp)
           \<and> call be (model clf') (rand be 2 shp) = Inr (out, bw)
           \<and> classes clf' = Some [0..<last (batch_shape out)]"
  using assms unfolding load_input_shape_def Let_def
  by (auto split: sum.splits option.splits if_splits prod.splits)

text \<open>
  Claim C10. After every successful \<open>load_state\<close> the input shape of the adapter is
  known, its feature count is the sum of the entries of the input shape (not their
  product), and its classes are \<open>0, ..., C - 1\<close>, with \<open>C\<close> the last dimension of the
  output of the restored network on a random batch of two inputs of that shape.
\<close>

theorem load_state_features:
  assumes "load_state be clf sd dataparallel = (Inr (), clf')"
  shows "\<exists>shp out bw. input_shape clf' = Some shp \<and> n_features clf' = Some (sum_list shp)
           \<and> call be (model clf') (rand be 2 shp) = Inr (out, bw)
           \<and> classes clf' = Some [0..<last (batch_shape out)]"
proof -
  from assms obtain c r where "load_input_shape be c r = (Inr (), clf')"
    unfolding load_state_def Let_def by (auto split: sum.splits)
  then show ?thesis by (rule load_input_shape_ok)
qed

lemmas load_state_defs = load_state_def load_defaults_def load_input_shape_def
  optimizer_load_state_dict_def model_load_state_dict_def set_regularize_bias_def rekey_def
  state_dict_def optimizer_state_dict_def init_optimizer_def SGD_def parameters_def
  demo_classifier_def linear_classifier_def linear_params_def Let_def
  linear_torch_def fc_def Linear_def lookup_def matvec_def batch_shape_def

lemma demo_load_state:
  "load_state (linear_torch 2 2) (demo_classifier \<lparr> input_shape := Some [1, 2] \<rparr>)
     (state_dict demo_classifier) False =
   (Inr (), demo_classifier \<lparr> input_shape := Some [1, 2], start_epoch := 1,
                               n_features := Some 3 \<rparr>)"
  by (simp add: load_state_defs eval_nat_numeral)

theorem load_state_features_witness:
  "load_state (linear_torch 2 2) (demo_classifier \<lparr> input_shape := Some [1, 2] \<rparr>)
     (state_dict demo_classifier) False =
   (Inr (), demo_classifier \<lparr> input_shape := Some [1, 2], start_epoch := 1,
                               n_features := Some 3 \<rparr>) \<and>
   (\<exists>shp out bw.
      input_shape (demo_classifier \<lparr> input_shape := Some [1, 2], start_epoch := 1,
                                     n_features := Some 3 \<rparr>) = Some shp \<and>
      Some (3::nat) = Some (sum_list shp) \<and>
      call (linear_torch 2 2) (model demo_classifier) (rand (linear_torch 2 2) 2 shp) =
        Inr (out, bw) \<and>
      classes demo_classifier = Some [0..<last (batch_shape out)])"
  using load_state_features [OF demo_load_state] demo_load_state by simp

subsection \<open>Batches and collections\<close>

declare chunks.simps [simp del]

lemma chunks_Nil_iff: "0 < n \<Longrightarrow> chunks n xs = [] \<longleftrightarrow> xs = []"
  by (subst chunks.simps) simp

lemma length_softmax_row [simp]: "length (softmax_row r) = length r"
  by (simp add: softmax_row_def)

lemma collect_append:
  "collect f (xs @ ys) =
     (case collect f xs of
        Inl e \<Rightarrow> Inl e
      | Inr a \<Rightarrow> (case collect f ys of Inl e \<Rightarrow> Inl e | Inr b \<Rightarrow> Inr (a @ b)))"
  by (induction xs) (auto split: sum.splits)

lemma collect_length: "collect f xs = Inr ys \<Longrightarrow> length ys = length xs"
  by (induction xs arbitrary: ys) (auto split: sum.splits)

lemma collect_all_ok:
  "\<forall>x \<in> set xs. f x = Inr (r x) \<Longrightarrow> collect f xs = Inr (map r xs)"
  by (induction xs) auto

lemma collect_bind_ok:
  "\<forall>x \<in> set xs. f x = Inr (r x) \<Longrightarrow>
     collect (\<lambda>x. case f x of Inl e \<Rightarrow> Inl e | Inr s \<Rightarrow> g s) xs = collect g (map r xs)"
  by (induction xs) (auto split: sum.splits)

lemma collect_first_fails:
  "xs \<noteq> [] \<Longrightarrow> \<forall>x \<in> set xs. f x = Inl e \<Longrightarrow> collect f xs = Inl e"
  by (cases xs) auto

lemma is_clear_batch_size [simp]: "is_clear (clf \<lparr> batch_size := b \<rparr>) = is_clear clf"
  by (simp add: is_clear_def)

lemma apply_preprocess_batch_size [simp]:
  "apply_preprocess (clf \<lparr> batch_size := b \<rparr>) x = apply_preprocess clf x"
  by (simp add: apply_preprocess_def)

lemmas inference_eval = predict_def decision_function_def u_decision_function_def
  u_get_test_input_loader_def reshape_def collate_def
  loader_batches_def is_clear_def apply_preprocess_def eval_mode_def
  linear_torch_def fc_def Linear_def lookup_def no_grad_logits_def batch_shape_def
  matvec_def to_carray_def squeeze1_def argmax_rows_def argmax_row_def argmax_def column_def
  ravel_def append_rows_def ncols_def Let_def chunks.simps

subsection \<open>The decision function and the scores of a prediction\<close>





lemma ncols_column [simp]:
  "rs \<noteq> [] \<Longrightarrow> ncols (map (\<lambda>r. [r ! y]) rs) = 1"
  by (cases rs) (simp_all add: ncols_def)




lemma ravel_column [simp]:
  "ravel (FDense (map (\<lambda>r. [r ! y]) rs)) = map (\<lambda>r. r ! y) rs"
  by (induction rs) (simp_all add: ravel_def)








subsection \<open>Batches preserve the order of the samples\<close>

text \<open>
  For a network whose output the adapter reads as one row of scores for each sample,
  inference batching never shuffles: for a matrix of input rows and any positive batch
  size, the result of \<open>predict\<close> is the one of predicting row by row in the order of
  the input (its \<open>i\<close>-th label and its \<open>i\<close>-th row of scores are those of the
  \<open>i\<close>-th input row), so the labels are the same for every two batch sizes. The
  linear layer is such a network unless it has a single output.
\<close>

lemma reshape_all:
  "(\<exists>e. \<forall>r. length r = d \<longrightarrow> reshape shp r = Inl e) \<or>
   (\<forall>r. length r = d \<longrightarrow> reshape shp r = Inr (Tensor (sample_shape shp d) r))"
  by (cases shp) (auto simp: reshape_def sample_shape_def)

lemma collect_rows_length:
  "\<forall>t r. g t = Inr r \<longrightarrow> length r = c \<Longrightarrow> collect g b = Inr rs \<Longrightarrow>
     list_all (\<lambda>r. length r = c) rs"
  by (induction b arbitrary: rs) (auto split: sum.splits)

lemma ncols_rows:
  "rs \<noteq> [] \<Longrightarrow> list_all (\<lambda>r. length r = c) rs \<Longrightarrow> ncols rs = c"
  by (cases rs) (simp_all add: ncols_def)

lemma predict_loop_rows:
  assumes sw: "samplewise be (model clf) s c g"
    and rs: "\<And>r. length r = d \<Longrightarrow> reshape (dl_transform dl) r = Inr (Tensor s r)"
  shows "0 < n \<Longrightarrow> list_all (\<lambda>r. length r = d) X \<Longrightarrow>
         (case acc of None \<Rightarrow> True
          | Some a \<Rightarrow> rows2d a \<noteq> [] \<and> list_all (\<lambda>r. length r = c) (rows2d a)) \<Longrightarrow>
         predict_loop be clf dl (chunks n X) acc =
           (case collect g (map (Tensor s) X) of
              Inl e \<Rightarrow> Inl e
            | Inr T \<Rightarrow>
                Inr (if X = [] then acc
                     else Some (FDense ((case acc of None \<Rightarrow> [] | Some a \<Rightarrow> rows2d a) @
                                        map (map F64) T))))"
proof (induction n X arbitrary: acc rule: chunks.induct)
  case (1 n xs)
  show ?case
  proof (cases "xs = []")
    case True
    then show ?thesis by (simp add: chunks.simps)
  next
    case False
    let ?c = "take n xs" and ?r = "drop n xs"
    let ?bt = "map (Tensor s) ?c"
    from False "1.prems"(1) have cne: "?c \<noteq> []" by simp
    have ch: "chunks n xs = ?c # chunks n ?r"
      using False "1.prems"(1) by (subst chunks.simps) simp
    have lc: "\<forall>r \<in> set ?c. length r = d" and lr: "list_all (\<lambda>r. length r = d) ?r"
      using "1.prems"(2) by (auto simp: list_all_iff dest: in_set_takeD in_set_dropD)
    have c1: "collate dl ?c = Inr ?bt"
      unfolding collate_def using lc rs by (intro collect_all_ok) auto
    have split: "collect g (map (Tensor s) xs) =
        (case collect g ?bt of Inl e \<Rightarrow> Inl e
         | Inr a \<Rightarrow> (case collect g (map (Tensor s) ?r) of
                       Inl e \<Rightarrow> Inl e | Inr b \<Rightarrow> Inr (a @ b)))"
    proof -
      have "map (Tensor s) xs = ?bt @ map (Tensor s) ?r"
        by (simp flip: map_append)
      then show ?thesis by (simp only: collect_append)
    qed
    have bt: "?bt \<noteq> [] \<and> list_all (\<lambda>t. shape t = s) ?bt"
      using cne by (simp add: list_all_iff)
    have fw: "no_grad_logits be clf ?bt =
        (case collect g ?bt of Inl e \<Rightarrow> Inl e | Inr rs \<Rightarrow> Inr (FDense (map (map F64) rs)))"
      using sw bt unfolding samplewise_def no_grad_logits_def by blast
    show ?thesis
    proof (cases "collect g ?bt")
      case (Inl e)
      then show ?thesis unfolding ch split by (simp add: c1 fw)
    next
      case (Inr rs1)
      have "0 < length rs1"
        using collect_length[OF Inr] False "1.prems"(1) by simp
      then have ne1: "rs1 \<noteq> []" by auto
      from sw have "\<forall>t r. g t = Inr r \<longrightarrow> length r = c" by (simp add: samplewise_def)
      from collect_rows_length[OF this Inr] have w1: "list_all (\<lambda>r. length r = c) rs1" .
      let ?L = "FDense (map (map F64) rs1)"
      let ?pre = "case acc of None \<Rightarrow> [] | Some a \<Rightarrow> rows2d a"
      have ap: "(case acc of None \<Rightarrow> Inr ?L | Some sc \<Rightarrow> append_rows sc ?L) =
                Inr (FDense (?pre @ map (map F64) rs1))"
      proof (cases acc)
        case None
        then show ?thesis by simp
      next
        case (Some a)
        with "1.prems"(3) have "ncols (rows2d a) = c" by (simp add: ncols_rows)
        moreover have "ncols (map (map F64) rs1) = c"
          using ne1 w1 by (intro ncols_rows) (simp_all add: list_all_iff)
        ultimately show ?thesis using Some by (simp add: append_rows_def)
      qed
      let ?acc' = "Some (FDense (?pre @ map (map F64) rs1))"
      have inv: "case ?acc' of None \<Rightarrow> True
                 | Some a \<Rightarrow> rows2d a \<noteq> [] \<and> list_all (\<lambda>r. length r = c) (rows2d a)"
        using ne1 w1 "1.prems"(3) by (cases acc) (auto simp: list_all_iff)
      have step: "predict_loop be clf dl (chunks n xs) acc =
                  predict_loop be clf dl (chunks n ?r) ?acc'"
        unfolding ch using c1 fw Inr ap by simp
      have IH: "predict_loop be clf dl (chunks n ?r) ?acc' =
          (case collect g (map (Tensor s) ?r) of
             Inl e \<Rightarrow> Inl e
           | Inr T \<Rightarrow>
               Inr (if ?r = [] then ?acc'
                    else Some (FDense ((?pre @ map (map F64) rs1) @ map (map F64) T))))"
        using "1.IH"[of ?acc'] False "1.prems"(1) lr inv by (auto split: sum.splits)
      show ?thesis
        unfolding step IH split Inr using False
        by (cases "collect g (map (Tensor s) ?r)") auto
    qed
  qed
qed

lemma predict_is_predict_rows:
  assumes b: "0 < b"
    and sw: "samplewise be ((model clf) \<lparr> training := False \<rparr>)
               (sample_shape (input_shape clf) d) c g"
    and X: "list_all (\<lambda>r. length r = d) (apply_preprocess clf (atleast_2d x))"
  shows "fst (predict be (clf \<lparr> batch_size := b \<rparr>) x r) = predict_rows g clf x r"
proof (cases "is_clear clf")
  case True
  then show ?thesis by (simp add: predict_def predict_rows_def)
next
  case False
  let ?X = "apply_preprocess clf (atleast_2d x)"
  let ?c = "clf \<lparr> batch_size := b \<rparr>"
  let ?dl = "\<lparr> dl_X = ?X, dl_batch_size = nat b, dl_transform = input_shape clf \<rparr>"
  let ?h = "\<lambda>row. case reshape (input_shape clf) row of Inl e \<Rightarrow> Inl e | Inr s \<Rightarrow> g s"
  let ?s = "sample_shape (input_shape clf) d"
  have dl: "u_get_test_input_loader ?c ?X = Inr ?dl"
    using b by (simp add: u_get_test_input_loader_def)
  have m: "model (eval_mode ?c) = (model clf) \<lparr> training := False \<rparr>"
    by (simp add: eval_mode_def)
  have so: "softmax_outputs (eval_mode ?c) = softmax_outputs clf"
    by (simp add: eval_mode_def)
  have nb: "0 < nat b" using b by simp
  from reshape_all[of d "input_shape clf"] show ?thesis
  proof
    assume "\<exists>e. \<forall>r. length r = d \<longrightarrow> reshape (input_shape clf) r = Inl e"
    then obtain e where e: "\<And>r. length r = d \<Longrightarrow> reshape (input_shape clf) r = Inl e"
      by blast
    show ?thesis
    proof (cases "?X = []")
      case True
      then show ?thesis
        using False dl
        by (simp add: predict_def predict_rows_def Let_def loader_batches_def chunks.simps)
    next
      case ne: False
      have ch: "chunks (nat b) ?X = take (nat b) ?X # chunks (nat b) (drop (nat b) ?X)"
        using ne nb by (subst chunks.simps) simp
      have tne: "take (nat b) ?X \<noteq> []" using ne nb by simp
      have lt: "\<forall>r \<in> set (take (nat b) ?X). length r = d"
        using X by (auto simp: list_all_iff dest: in_set_takeD)
      have c1: "collate ?dl (take (nat b) ?X) = Inl e"
        unfolding collate_def using tne lt e by (intro collect_first_fails) auto
      have c2: "collect ?h ?X = Inl e"
        using ne X e by (intro collect_first_fails) (auto simp: list_all_iff)
      show ?thesis
        using False dl c1 c2
        by (simp add: predict_def predict_rows_def Let_def loader_batches_def ch)
    qed
  next
    assume "\<forall>r. length r = d \<longrightarrow> reshape (input_shape clf) r = Inr (Tensor ?s r)"
    then have rs: "\<And>r. length r = d \<Longrightarrow> reshape (dl_transform ?dl) r = Inr (Tensor ?s r)"
      by simp
    have sw': "samplewise be (model (eval_mode ?c)) ?s c g"
      using sw by (simp add: m)
    have lp: "predict_loop be (eval_mode ?c) ?dl (chunks (nat b) ?X) None =
        (case collect g (map (Tensor ?s) ?X) of
           Inl e \<Rightarrow> Inl e
         | Inr T \<Rightarrow> Inr (if ?X = [] then None else Some (FDense (map (map F64) T))))"
      using predict_loop_rows[OF sw' rs nb X, of None] by (simp split: sum.splits)
    have hh: "collect ?h ?X = collect g (map (Tensor ?s) ?X)"
      using X rs by (intro collect_bind_ok) (auto simp: list_all_iff)
    show ?thesis
    proof (cases "collect g (map (Tensor ?s) ?X)")
      case (Inl e)
      then show ?thesis
        using False dl lp hh
        by (simp add: predict_def predict_rows_def Let_def loader_batches_def)
    next
      case (Inr T)
      from collect_length[OF Inr] have len: "length T = length ?X" by simp
      show ?thesis
      proof (cases "?X = []")
        case True
        with len have "T = []" by simp
        then show ?thesis
          using False dl lp hh Inr True
          by (simp add: predict_def predict_rows_def Let_def loader_batches_def)
      next
        case ne: False
        with len obtain t ts where T: "T = t # ts" by (cases T) auto
        show ?thesis
          using False dl lp hh Inr ne so
          by (simp add: predict_def predict_rows_def Let_def loader_batches_def T
                split: sum.splits)
      qed
    qed
  qed
qed

lemma predict_batch_invariant:
  assumes "0 < b1" and "0 < b2"
    and "samplewise be ((model clf) \<lparr> training := False \<rparr>)
           (sample_shape (input_shape clf) d) c g"
    and "list_all (\<lambda>r. length r = d) (apply_preprocess clf (atleast_2d x))"
  shows "fst (predict be (clf \<lparr> batch_size := b1 \<rparr>) x r) = predict_rows g clf x r \<and>
         fst (predict be (clf \<lparr> batch_size := b2 \<rparr>) x r) =
           fst (predict be (clf \<lparr> batch_size := b1 \<rparr>) x r)"
  using predict_is_predict_rows[OF assms(1) assms(3) assms(4)]
    predict_is_predict_rows[OF assms(2) assms(3) assms(4)]
  by simp

lemma collect_fc_row:
  "collect (fc_row d m) b =
     (if list_all (\<lambda>x. length (vals x) = d) b
      then Inr (map (\<lambda>x. map2 (+) (matvec (chunks d (lookup (params m) ''fc.weight'')) (vals x))
                            (lookup (params m) ''fc.bias'')) b)
      else Inl (LibraryError ''size mismatch''))"
  by (induction b) (auto simp: fc_row_def)

lemma samplewise_fc:
  assumes "length (chunks d (lookup (params m) ''fc.weight'')) = c"
    and "c \<le> length (lookup (params m) ''fc.bias'')" and "c \<noteq> 1"
  shows "samplewise (linear_torch d c') m [d] c (fc_row d m)"
proof -
  let ?W = "chunks d (lookup (params m) ''fc.weight'')"
  let ?b = "lookup (params m) ''fc.bias''"
  have w: "length r = c" if "fc_row d m t = Inr r" for t r
    using that assms(1,2) by (auto simp: fc_row_def matvec_def split: if_splits)
  have f: "(case call (linear_torch d c') m b of
              Inl e \<Rightarrow> Inl e
            | Inr (out, bw) \<Rightarrow> to_carray (squeeze1 out)) =
           (case collect (fc_row d m) b of
              Inl e \<Rightarrow> Inl e
            | Inr rs \<Rightarrow> Inr (FDense (map (map F64) rs)))"
    if ne: "b \<noteq> []" and sh: "list_all (\<lambda>t. shape t = [d]) b" for b
  proof (cases "list_all (\<lambda>x. length (vals x) = d) b")
    case False
    then show ?thesis
      by (simp add: linear_torch_def fc_def Linear_def collect_fc_row)
  next
    case True
    let ?out = "map (\<lambda>x. Tensor (butlast (shape x) @ [length ?W]) (map2 (+) (matvec ?W (vals x)) ?b)) b"
    have out: "?out = map (\<lambda>x. Tensor [c] (map2 (+) (matvec ?W (vals x)) ?b)) b"
      using sh assms(1) by (auto simp: list_all_iff)
    have sq: "squeeze1 ?out = ?out"
      unfolding out using assms(3) by (simp add: squeeze1_def)
    obtain t ts where b: "b = t # ts" using ne by (cases b) auto
    have bs: "batch_shape ?out = [length b, c]"
      unfolding out by (simp add: batch_shape_def b)
    have "to_carray (squeeze1 ?out) =
          Inr (FDense (map (map F64) (map (\<lambda>x. map2 (+) (matvec ?W (vals x)) ?b) b)))"
      unfolding sq by (simp add: to_carray_def bs)
    then show ?thesis
      using True by (simp add: linear_torch_def fc_def Linear_def collect_fc_row)
  qed
  show ?thesis
    unfolding samplewise_def using w f by blast
qed

lemma predict_batch_invariant_demo:
  "fst (predict (linear_torch 2 2) (demo_classifier \<lparr> batch_size := 1 \<rparr>)
         (Dense [[1, 0], [0, 1], [1, 1]]) True) =
     Inr ([1, 1, 1], Some (FDense [[F64 1, F64 3], [F64 2, F64 4], [F64 3, F64 7]])) \<and>
   fst (predict (linear_torch 2 2) (demo_classifier \<lparr> batch_size := 2 \<rparr>)
         (Dense [[1, 0], [0, 1], [1, 1]]) True) =
     fst (predict (linear_torch 2 2) (demo_classifier \<lparr> batch_size := 1 \<rparr>)
         (Dense [[1, 0], [0, 1], [1, 1]]) True)"
proof -
  let ?m = "(model demo_classifier) \<lparr> training := False \<rparr>"
  have sw: "samplewise (linear_torch 2 2) ?m (sample_shape (input_shape demo_classifier) 2) 2
              (fc_row 2 ?m)"
    using samplewise_fc[of 2 ?m 2 2]
    by (simp add: sample_shape_def demo_classifier_def linear_classifier_def
          init_optimizer_def linear_params_def lookup_def chunks.simps)
  have X: "list_all (\<lambda>r. length r = 2)
             (apply_preprocess demo_classifier (atleast_2d (Dense [[1, 0], [0, 1], [1, 1]])))"
    by (simp add: apply_preprocess_def)
  have rows: "predict_rows (fc_row 2 ?m) demo_classifier (Dense [[1, 0], [0, 1], [1, 1]]) True =
      Inr ([1, 1, 1], Some (FDense [[F64 1, F64 3], [F64 2, F64 4], [F64 3, F64 7]]))"
    by (simp add: predict_rows_def fc_row_def is_clear_def apply_preprocess_def reshape_def
          lookup_def matvec_def chunks.simps argmax_rows_def argmax_row_def argmax_def)
  from predict_batch_invariant[OF _ _ sw X, of 1 2 True] rows show ?thesis by simp
qed

text \<open>
  Claim C7. The labels that \<open>predict\<close> returns do depend on the batch size when the
  network gives a single score for each sample. Its output on a batch of \<open>N\<close> samples
  has the shape \<open>(N, 1)\<close>, \<open>squeeze(1)\<close> makes of it a tensor of shape \<open>(N,)\<close>
  and the array made from that is flat: one row of \<open>N\<close> scores, not \<open>N\<close> rows. On
  the four samples below, whose scores under the layer \<open>W = [[1, 2]]\<close> are
  \<open>1, 2, 3, 0\<close>, \<open>predict\<close> returns four labels with batches of one sample, two
  labels with batches of two, a single label with one batch of four, and raises with
  batches of three, where a row of three scores meets a row of one. (For every network
  whose output is read as one row for each sample the labels are those of the rows, in
  their order, whatever the batch size: lemma \<open>predict_batch_invariant\<close>.)
\<close>

theorem predict_labels_depend_on_batch_size:
  "fst (predict (linear_torch 2 1) ((linear_classifier [[1, 2]] [0] 2) \<lparr> batch_size := 1 \<rparr>)
         (Dense [[1, 0], [0, 1], [1, 1], [0, 0]]) True) =
     Inr ([0, 0, 0, 0], Some (FDense [[F64 1], [F64 2], [F64 3], [F64 0]])) \<and>
   fst (predict (linear_torch 2 1) ((linear_classifier [[1, 2]] [0] 2) \<lparr> batch_size := 2 \<rparr>)
         (Dense [[1, 0], [0, 1], [1, 1], [0, 0]]) True) =
     Inr ([1, 0], Some (FDense [[F64 1, F64 2], [F64 3, F64 0]])) \<and>
   fst (predict (linear_torch 2 1) ((linear_classifier [[1, 2]] [0] 2) \<lparr> batch_size := 3 \<rparr>)
         (Dense [[1, 0], [0, 1], [1, 1], [0, 0]]) True) =
     Inl (ValueError
       ''all the input array dimensions except for the concatenation axis must match exactly'') \<and>
   fst (predict (linear_torch 2 1) ((linear_classifier [[1, 2]] [0] 2) \<lparr> batch_size := 4 \<rparr>)
         (Dense [[1, 0], [0, 1], [1, 1], [0, 0]]) True) =
     Inr ([2], Some (FFlat [F64 1, F64 2, F64 3, F64 0]))"
  by (simp add: inference_eval linear_classifier_def init_optimizer_def linear_params_def)

subsection \<open>Exporting a state and importing it\<close>

lemma init_optimizer_groups:
  "map pg_params (param_groups (optimizer (init_optimizer c))) =
     (if weight_decay c \<noteq> 0 \<and> \<not> regularize_bias c
      then [filter (\<lambda>n. endswith n ''bias'') (parameters (model c)),
            filter (\<lambda>n. \<not> endswith n ''bias'') (parameters (model c))]
      else [parameters (model c)])"
  by (simp add: init_optimizer_def SGD_def add_weight_decay_def Let_def)

lemma init_optimizer_fields [simp]:
  "model (init_optimizer c) = model c" "start_epoch (init_optimizer c) = start_epoch c"
  "batch_size (init_optimizer c) = batch_size c" "input_shape (init_optimizer c) = input_shape c"
  "softmax_outputs (init_optimizer c) = softmax_outputs c"
  "preprocess (init_optimizer c) = preprocess c" "classes (init_optimizer c) = classes c"
  "n_features (init_optimizer c) = n_features c"
  "weight_decay (init_optimizer c) = weight_decay c"
  "regularize_bias (init_optimizer c) = regularize_bias c"
  "acc_epoch (init_optimizer c) = acc_epoch c" "best_acc (init_optimizer c) = best_acc c"
  "warnings (init_optimizer c) = warnings c"
  by (simp_all add: init_optimizer_def Let_def)

lemma keys_of_shapes:
  "map fst (map (\<lambda>(k, v). (k, shape v)) xs) = map fst xs"
  by (induction xs) auto

lemma same_shapes_same_keys:
  assumes "map (\<lambda>(k, v). (k, shape v)) pa = map (\<lambda>(k, v). (k, shape v)) pb"
  shows "map fst pa = map fst pb"
  using arg_cong[OF assms, of "map fst"] by (simp only: keys_of_shapes)

lemma load_state_dict_same_keys:
  assumes "map (\<lambda>(k, v). (k, shape v)) pa = map (\<lambda>(k, v). (k, shape v)) pb"
    and "distinct (map fst pa)"
  shows "(\<forall>(k, v) \<in> set pb. map_option shape (map_of pa k) = Some (shape v)) \<and>
         map (\<lambda>(k, v). (k, the (map_of pa k))) pb = pa"
proof -
  from assms(1) have len: "length pa = length pb"
    by (rule map_eq_imp_length_eq)
  from len assms show ?thesis
  proof (induction pa pb rule: list_induct2)
    case Nil
    then show ?case by simp
  next
    case (Cons a pa b pb)
    obtain k v where a: "a = (k, v)" by (cases a)
    obtain k' v' where b: "b = (k', v')" by (cases b)
    from Cons.prems(1) have kk: "k' = k" and sh: "shape v' = shape v"
      and tl: "map (\<lambda>(k, v). (k, shape v)) pa = map (\<lambda>(k, v). (k, shape v)) pb"
      by (simp_all add: a b)
    from Cons.prems(2) have nk: "k \<notin> set (map fst pa)" and d: "distinct (map fst pa)"
      by (simp_all add: a)
    from nk same_shapes_same_keys[OF tl] have nk': "k \<notin> set (map fst pb)" by simp
    from Cons.IH[OF tl d] have
      ih1: "\<forall>(k, v) \<in> set pb. map_option shape (map_of pa k) = Some (shape v)"
      and ih2: "map (\<lambda>(k, v). (k, the (map_of pa k))) pb = pa" by simp_all
    have other: "map_of (a # pa) k'' = map_of pa k''" if "(k'', v'') \<in> set pb" for k'' v''
    proof -
      from that have "k'' \<in> set (map fst pb)" by force
      with nk' have "k'' \<noteq> k" by blast
      then show ?thesis by (simp add: a)
    qed
    have r1: "\<forall>(k'', v'') \<in> set pb. map_option shape (map_of (a # pa) k'') = Some (shape v'')"
    proof -
      have "map_option shape (map_of (a # pa) (fst p)) = Some (shape (snd p))"
        if "p \<in> set pb" for p
      proof -
        from that have m: "(fst p, snd p) \<in> set pb" by simp
        with ih1 have "map_option shape (map_of pa (fst p)) = Some (shape (snd p))" by blast
        then show ?thesis by (simp only: other[OF m])
      qed
      then show ?thesis by (simp add: case_prod_beta del: map_of.simps)
    qed
    have "map (\<lambda>(k'', v''). (k'', the (map_of (a # pa) k''))) pb =
          map (\<lambda>(k, v). (k, the (map_of pa k))) pb"
    proof (rule map_cong[OF refl])
      fix p assume pin: "p \<in> set pb"
      obtain k'' v'' where p: "p = (k'', v'')" by (cases p)
      from pin have m: "(k'', v'') \<in> set pb" by (simp add: p)
      show "(case p of (k'', v'') \<Rightarrow> (k'', the (map_of (a # pa) k''))) =
            (case p of (k, v) \<Rightarrow> (k, the (map_of pa k)))"
        by (simp only: p prod.case other[OF m])
    qed
    with ih2 have r2: "map (\<lambda>(k'', v''). (k'', the (map_of (a # pa) k''))) pb = pa" by simp
    have hd1: "map_option shape (map_of (a # pa) k') = Some (shape v')"
      by (simp add: a kk sh)
    have hd2: "(k', the (map_of (a # pa) k')) = a" by (simp add: a kk)
    show ?case using r1 r2 hd1 hd2 by (simp add: b)
  qed
qed

lemma model_load_state_dict_same_architecture:
  assumes "map (\<lambda>(k, v). (k, shape v)) pa = map (\<lambda>(k, v). (k, shape v)) (params m)"
    and "distinct (map fst pa)"
  shows "model_load_state_dict m pa = Inr (m \<lparr> params := pa \<rparr>)"
proof -
  from same_shapes_same_keys[OF assms(1)]
  have keys: "set (map fst pa) = set (map fst (params m))" by simp
  from load_state_dict_same_keys[OF assms]
  have c1: "\<not> (\<exists>(k, v) \<in> set (params m). map_option shape (map_of pa k) \<noteq> Some (shape v))"
    and c2: "map (\<lambda>(k, v). (k, the (map_of pa k))) (params m) = pa"
    by (simp_all add: case_prod_beta)
  show ?thesis
    unfolding model_load_state_dict_def using keys c1 c2 by simp
qed

lemma no_grad_logits_model:
  "model c1 = model c2 \<Longrightarrow> no_grad_logits be c1 s = no_grad_logits be c2 s"
  by (simp add: no_grad_logits_def)

lemma predict_loop_model:
  "model c1 = model c2 \<Longrightarrow> predict_loop be c1 dl bs acc = predict_loop be c2 dl bs acc"
proof (induction bs arbitrary: acc)
  case Nil
  show ?case by simp
next
  case (Cons rws rest)
  show ?case
    using Cons.IH[OF Cons.prems] no_grad_logits_model[OF Cons.prems, of be]
    by (simp split: sum.splits)
qed

lemma predict_cong:
  assumes "is_clear c1 = is_clear c2" and "preprocess c1 = preprocess c2"
    and "batch_size c1 = batch_size c2" and "input_shape c1 = input_shape c2"
    and "softmax_outputs c1 = softmax_outputs c2"
    and "(model c1) \<lparr> training := False \<rparr> = (model c2) \<lparr> training := False \<rparr>"
  shows "fst (predict be c1 x r) = fst (predict be c2 x r)"
proof -
  have l: "u_get_test_input_loader c1 X = u_get_test_input_loader c2 X" for X
    using assms(3,4) by (simp add: u_get_test_input_loader_def)
  have p: "apply_preprocess c1 X = apply_preprocess c2 X" for X
    using assms(2) by (simp add: apply_preprocess_def)
  have m: "model (eval_mode c1) = model (eval_mode c2)"
    using assms(6) by (simp add: eval_mode_def)
  have s: "softmax_outputs (eval_mode c1) = softmax_outputs (eval_mode c2)"
    using assms(5) by (simp add: eval_mode_def)
  show ?thesis
    unfolding predict_def Let_def l p s predict_loop_model[OF m] assms(1)
    by (simp split: sum.splits option.splits)
qed

lemma load_state_success:
  assumes o: "optimizer_load_state_dict (optimizer (load_defaults clf (sd_optimizer sd)))
                (sd_optimizer sd) = Inr opt"
    and m: "model_load_state_dict (model (load_defaults clf (sd_optimizer sd)))
              (sd_state_dict sd) = Inr m'"
  shows "load_state be clf sd False =
           load_input_shape be
             ((load_defaults clf (sd_optimizer sd))
                \<lparr> optimizer := opt, start_epoch := sd_epoch sd,
                  acc_epoch := (case sd_acc sd of None \<Rightarrow> 0 | Some a \<Rightarrow> a),
                  best_acc := (case sd_best_acc sd of None \<Rightarrow> 0 | Some a \<Rightarrow> a),
                  model := m' \<rparr>)
             (sd_input_shape sd)"
  using o m by (simp add: load_state_def Let_def)

lemma load_defaults_state_dict:
  "load_defaults B (sd_optimizer (state_dict A)) =
     init_optimizer (B \<lparr> learning_rate := d_lr (defaults (optimizer A)),
                          momentum := d_momentum (defaults (optimizer A)),
                          weight_decay := d_weight_decay (defaults (optimizer A)),
                          regularize_bias := regularize_bias A \<rparr>)"
  by (simp add: load_defaults_def state_dict_def optimizer_state_dict_def
        set_regularize_bias_def Let_def)

lemma optimizer_load_matching:
  assumes "map pg_params (param_groups opt) = map pg_params (osd_param_groups sd)"
  shows "\<exists>opt'. optimizer_load_state_dict opt sd = Inr opt'"
proof -
  from assms have "length (param_groups opt) = length (osd_param_groups sd)"
    by (rule map_eq_imp_length_eq)
  moreover from arg_cong[OF assms, of "map length"]
  have "map (length \<circ> pg_params) (param_groups opt) =
        map (length \<circ> pg_params) (osd_param_groups sd)" by simp
  ultimately show ?thesis by (simp add: optimizer_load_state_dict_def Let_def)
qed

lemma load_defaults_fields [simp]:
  "model (load_defaults c osd) = model c" "input_shape (load_defaults c osd) = input_shape c"
  "batch_size (load_defaults c osd) = batch_size c"
  "softmax_outputs (load_defaults c osd) = softmax_outputs c"
  "preprocess (load_defaults c osd) = preprocess c"
  by (simp_all add: load_defaults_def Let_def logger_warning_def set_regularize_bias_def
        split: option.splits)

lemma load_input_shape_success:
  assumes "input_shape c = None \<or> input_shape c = Some shp"
    and "call be (model c) (rand be 2 shp) = Inr (out, bw)"
  shows "\<exists>c'. load_input_shape be c (Some shp) = (Inr (), c') \<and>
           input_shape c' = Some shp \<and> model c' = model c \<and>
           start_epoch c' = start_epoch c \<and> batch_size c' = batch_size c \<and>
           softmax_outputs c' = softmax_outputs c \<and> preprocess c' = preprocess c \<and>
           classes c' \<noteq> None"
  using assms by (auto simp: load_input_shape_def Let_def)

text \<open>
  The round trip of a state. Let \<open>A\<close> be a trained adapter whose input shape is
  known and whose optimizer is bound to its model, and \<open>B\<close> an adapter of the same
  architecture and the same inference configuration (freshly constructed, say), on whose
  network an input of the declared shape can be run. Then importing the exported state of
  \<open>A\<close> into \<open>B\<close> succeeds, afterwards \<open>B\<close> predicts on every input what \<open>A\<close>
  predicts, and the epoch counter of \<open>B\<close> is the one of \<open>A\<close> plus one.
\<close>

lemma state_round_trip:
  assumes shape: "input_shape A = Some shp"
    and trained: "\<not> is_clear A"
    and bound: "optimizer_bound A"
    and arch: "same_architecture A B"
    and conf: "same_inference_setup A B"
    and dummy: "call be ((model B) \<lparr> params := params (model A) \<rparr>) (rand be 2 shp) = Inr (out, bw)"
  shows "\<exists>B'. load_state be B (state_dict A) False = (Inr (), B') \<and>
               start_epoch B' = start_epoch A + 1 \<and>
               (\<forall>x r. fst (predict be B' x r) = fst (predict be A x r))"
proof -
  let ?sd = "state_dict A"
  let ?B1 = "load_defaults B (sd_optimizer ?sd)"
  from arch have shapes: "map (\<lambda>(k, v). (k, shape v)) (params (model A)) =
      map (\<lambda>(k, v). (k, shape v)) (params (model B))"
    and dist: "distinct (map fst (params (model A)))"
    by (simp_all add: same_architecture_def)
  from same_shapes_same_keys[OF shapes]
  have keys: "parameters (model B) = parameters (model A)" by (simp add: parameters_def)
  from bound have wd: "d_weight_decay (defaults (optimizer A)) = weight_decay A"
    and gr: "map pg_params (param_groups (optimizer A)) =
             map pg_params (param_groups (optimizer (init_optimizer A)))"
    by (simp_all add: optimizer_bound_def)
  have mB1: "model ?B1 = model B"
    by (simp add: load_defaults_state_dict)
  have "map pg_params (param_groups (optimizer ?B1)) =
        map pg_params (param_groups (optimizer (init_optimizer A)))"
    unfolding load_defaults_state_dict init_optimizer_groups by (simp add: keys wd)
  with gr have "map pg_params (param_groups (optimizer ?B1)) =
      map pg_params (osd_param_groups (sd_optimizer ?sd))"
    by (simp add: state_dict_def optimizer_state_dict_def)
  from optimizer_load_matching[OF this] obtain opt where
    o: "optimizer_load_state_dict (optimizer ?B1) (sd_optimizer ?sd) = Inr opt" ..
  have m: "model_load_state_dict (model ?B1) (sd_state_dict ?sd) =
      Inr ((model B) \<lparr> params := params (model A) \<rparr>)"
    unfolding mB1 using model_load_state_dict_same_architecture[OF shapes dist]
    by (simp add: state_dict_def)
  let ?B3 = "?B1 \<lparr> optimizer := opt, start_epoch := sd_epoch ?sd,
                   acc_epoch := (case sd_acc ?sd of None \<Rightarrow> 0 | Some a \<Rightarrow> a),
                   best_acc := (case sd_best_acc ?sd of None \<Rightarrow> 0 | Some a \<Rightarrow> a),
                   model := (model B) \<lparr> params := params (model A) \<rparr> \<rparr>"
  from conf shape have isB: "input_shape ?B3 = None \<or> input_shape ?B3 = Some shp"
    by (simp add: same_inference_setup_def)
  have "call be (model ?B3) (rand be 2 shp) = Inr (out, bw)"
    using dummy by simp
  from load_input_shape_success[OF isB this] obtain B' where
    lis: "load_input_shape be ?B3 (Some shp) = (Inr (), B')"
    and f: "input_shape B' = Some shp" "model B' = model ?B3" "start_epoch B' = start_epoch ?B3"
      "batch_size B' = batch_size ?B3" "softmax_outputs B' = softmax_outputs ?B3"
      "preprocess B' = preprocess ?B3" "classes B' \<noteq> None"
    by blast
  have "sd_input_shape ?sd = Some shp"
    using shape by (simp add: state_dict_def)
  with lis load_state_success[OF o m, of be]
  have ld: "load_state be B ?sd False = (Inr (), B')" by simp
  have ep: "start_epoch B' = start_epoch A + 1"
    by (simp add: f state_dict_def)
  have pr: "fst (predict be B' x r) = fst (predict be A x r)" for x r
  proof (rule predict_cong)
    show "is_clear B' = is_clear A" using trained f(7) by (auto simp: is_clear_def)
    show "preprocess B' = preprocess A" "batch_size B' = batch_size A"
      "softmax_outputs B' = softmax_outputs A"
      using conf by (simp_all add: f same_inference_setup_def)
    show "input_shape B' = input_shape A" using shape f by simp
    show "(model B') \<lparr> training := False \<rparr> = (model A) \<lparr> training := False \<rparr>"
      by (simp add: f)
  qed
  from ld ep pr show ?thesis by blast
qed

lemma demo_bound: "optimizer_bound demo_classifier"
  by (simp add: optimizer_bound_def demo_classifier_def linear_classifier_def
        init_optimizer_def SGD_def Let_def)

lemma demo_same_architecture: "same_architecture demo_classifier demo_fresh"
  by (simp add: same_architecture_def demo_classifier_def demo_fresh_def
        linear_classifier_def init_optimizer_def linear_params_def Let_def)

lemma demo_same_setup: "same_inference_setup demo_classifier demo_fresh"
  by (simp add: same_inference_setup_def demo_classifier_def demo_fresh_def
        linear_classifier_def init_optimizer_def Let_def)

lemma demo_dummy_forward:
  "\<exists>out bw. call (linear_torch 2 2)
      ((model demo_fresh) \<lparr> params := params (model demo_classifier) \<rparr>)
      (rand (linear_torch 2 2) 2 [2]) = Inr (out, bw)"
  by (simp add: linear_torch_def fc_def Linear_def eval_nat_numeral)

lemma state_round_trip_demo:
  "\<exists>B'. load_state (linear_torch 2 2) demo_fresh (state_dict demo_classifier) False = (Inr (), B') \<and>
         start_epoch B' = 1 \<and>
         (\<forall>x r. fst (predict (linear_torch 2 2) B' x r) =
                 fst (predict (linear_torch 2 2) demo_classifier x r))"
proof -
  have shp: "input_shape demo_classifier = Some [2]" by simp
  have tr: "\<not> is_clear demo_classifier" by (simp add: is_clear_def)
  from demo_dummy_forward obtain out bw where
    d: "call (linear_torch 2 2)
          ((model demo_fresh) \<lparr> params := params (model demo_classifier) \<rparr>)
          (rand (linear_torch 2 2) 2 [2]) = Inr (out, bw)" by blast
  from state_round_trip [OF shp tr demo_bound demo_same_architecture demo_same_setup d]
  show ?thesis by simp
qed

text \<open>
  Claim C1. The round trip fails on a trained adapter whose optimizer is not bound to
  its model. The adapter below is the trained adapter of the instance after
  \<open>regularize_bias = False\<close> has been assigned through the setter, which leaves the
  optimizer with its single group of parameters. Its input shape is known and the fresh
  adapter has its architecture and its inference configuration; yet importing its
  exported state raises (the optimizer recreated from the imported settings has two
  groups of parameters, the exported one has one), the importing adapter is left
  untrained, and it does not predict what the exporting adapter predicts.
\<close>

theorem round_trip_fails_after_regularize_bias:
  "input_shape (set_regularize_bias False demo_classifier) = Some [2] \<and>
   \<not> is_clear (set_regularize_bias False demo_classifier) \<and>
   same_architecture (set_regularize_bias False demo_classifier) demo_fresh \<and>
   same_inference_setup (set_regularize_bias False demo_classifier) demo_fresh \<and>
   fst (load_state (linear_torch 2 2) demo_fresh
          (state_dict (set_regularize_bias False demo_classifier)) False) =
     Inl (ValueError ''loaded state dict has a different number of parameter groups'') \<and>
   fst (predict (linear_torch 2 2)
          (snd (load_state (linear_torch 2 2) demo_fresh
                  (state_dict (set_regularize_bias False demo_classifier)) False))
          (Flat [1, 0]) False) =
     Inl (ValueError ''make sure the classifier is trained first.'') \<and>
   fst (predict (linear_torch 2 2) (set_regularize_bias False demo_classifier)
          (Flat [1, 0]) False) = Inr ([1], None)"
  by (simp add: set_regularize_bias_def same_architecture_def same_inference_setup_def
        demo_classifier_def demo_fresh_def
        linear_classifier_def init_optimizer_def SGD_def add_weight_decay_def parameters_def
        linear_params_def endswith_def Let_def load_state_def load_defaults_def
        state_dict_def optimizer_state_dict_def optimizer_load_state_dict_def inference_eval)

subsection \<open>The setters and the optimizer handle\<close>

lemma setters_recreate_optimizer:
  "optimizer (set_learning_rate v clf) =
     optimizer (init_optimizer (clf \<lparr> learning_rate := v \<rparr>))"
  "optimizer (set_momentum v clf) = optimizer (init_optimizer (clf \<lparr> momentum := v \<rparr>))"
  "optimizer (set_weight_decay v clf) =
     optimizer (init_optimizer (clf \<lparr> weight_decay := v \<rparr>))"
  "opt_state (optimizer (set_learning_rate v clf)) = []"
  "opt_state (optimizer (set_momentum v clf)) = []"
  "opt_state (optimizer (set_weight_decay v clf)) = []"
  by (simp_all add: set_learning_rate_def set_momentum_def set_weight_decay_def
        init_optimizer_def SGD_def Let_def)

lemma init_optimizer_bound: "optimizer_bound (init_optimizer c)"
  by (simp add: optimizer_bound_def init_optimizer_groups)
     (simp add: init_optimizer_def SGD_def Let_def)

lemma setters_keep_bound:
  "optimizer_bound (set_learning_rate v clf)" "optimizer_bound (set_momentum v clf)"
  "optimizer_bound (set_weight_decay v clf)"
  by (simp_all add: set_learning_rate_def set_momentum_def set_weight_decay_def
        init_optimizer_bound)

text \<open>
  Claim C4. The setters of the learning rate, of the momentum and of the weight decay
  recreate the optimizer (lemma \<open>setters_recreate_optimizer\<close>), and leave it bound to
  the model. The setter of the bias regularization policy does not: on the adapter below,
  whose weight decay is not zero, switching the regularization of the biases off leaves
  the optimizer handle as it was, with its single group that regularizes the bias, where
  a recreated optimizer has two groups; the state exported from this adapter can then
  not be imported.
\<close>

theorem regularize_bias_setter_keeps_optimizer:
  "optimizer (set_regularize_bias False demo_classifier) = optimizer demo_classifier \<and>
   map pg_params (param_groups (optimizer (set_regularize_bias False demo_classifier))) =
     [[''fc.weight'', ''fc.bias'']] \<and>
   map pg_params (param_groups (optimizer (init_optimizer
       (set_regularize_bias False demo_classifier)))) = [[''fc.bias''], [''fc.weight'']] \<and>
   \<not> optimizer_bound (set_regularize_bias False demo_classifier) \<and>
   fst (load_state (linear_torch 2 2) demo_fresh
          (state_dict (set_regularize_bias False demo_classifier)) False) =
     Inl (ValueError ''loaded state dict has a different number of parameter groups'')"
  by (simp add: set_regularize_bias_def optimizer_bound_def demo_classifier_def demo_fresh_def
        linear_classifier_def init_optimizer_def SGD_def add_weight_decay_def parameters_def
        linear_params_def endswith_def Let_def load_state_def load_defaults_def
        state_dict_def optimizer_state_dict_def optimizer_load_state_dict_def)

subsection \<open>The best epoch of a training run\<close>

lemma train_batches_best:
  "train_batches be clf bs l a = (r, clf') \<Longrightarrow> best_acc clf' = best_acc clf"
proof (induction bs arbitrary: clf l a)
  case Nil
  then show ?case by simp
next
  case (Cons p bs)
  obtain x y0 where p: "p = (x, y0)" by (cases p)
  show ?case
  proof (cases "call be (model clf) x")
    case (Inl e)
    with Cons.prems show ?thesis by (simp add: p Let_def)
  next
    case (Inr q)
    obtain logits bw where q: "q = (logits, bw)" by (cases q)
    show ?thesis
    proof (cases "loss be clf logits (squeeze1 y0)")
      case (Inl e)
      with Cons.prems Inr show ?thesis by (simp add: p q Let_def)
    next
      case l: (Inr lv)
      from Cons.prems Inr l obtain c l' a' where
        "train_batches be c bs l' a' = (r, clf')" and "best_acc c = best_acc clf"
        by (simp add: p q Let_def)
      with Cons.IH show ?thesis by simp
    qed
  qed
qed

lemma train_epoch_fields:
  assumes "train_epoch be ds clf e = (r, clf')"
  shows "best_acc clf' = best_acc clf"
proof -
  let ?c = "clf \<lparr> start_epoch := e,
                 optimizer := scheduler_step be (lr_schedule clf) (gamma clf) e (optimizer clf) \<rparr>"
  obtain r0 c0 where tb: "train_batches be ?c
      (train_loader be e (ds_X ds) (get_labels_asbinary ds) (nat (batch_size clf)))
      \<lparr> m_sum = 0, m_count = 0 \<rparr> \<lparr> m_sum = 0, m_count = 0 \<rparr> = (r0, c0)"
    by (cases "train_batches be ?c
      (train_loader be e (ds_X ds) (get_labels_asbinary ds) (nat (batch_size clf)))
      \<lparr> m_sum = 0, m_count = 0 \<rparr> \<lparr> m_sum = 0, m_count = 0 \<rparr>")
  from train_batches_best[OF tb] have b: "best_acc c0 = best_acc clf" by simp
  from assms tb have "best_acc clf' = best_acc c0"
    by (auto simp: train_epoch_def Let_def split: sum.splits prod.splits)
  with b show ?thesis by simp
qed

lemma fold_max_below:
  "\<forall>x \<in> set xs. x < (b::real) \<Longrightarrow> fold max xs b = b"
  by (induction xs arbitrary: b) (auto simp: max_def)

lemma fit_epochs_best:
  assumes "fit_epochs be ds True es (clf, bep, bsd) = (Inr (), clf', bep', bsd')"
  shows "length (epoch_ends be ds True es (clf, bep, bsd)) = length es \<and>
         best_acc clf' = fold max (map acc_epoch (epoch_ends be ds True es (clf, bep, bsd)))
                           (best_acc clf) \<and>
         (if \<forall>c \<in> set (epoch_ends be ds True es (clf, bep, bsd)). acc_epoch c < best_acc clf
          then bep' = bep \<and> bsd' = bsd
          else (\<exists>j < length es.
                  acc_epoch (epoch_ends be ds True es (clf, bep, bsd) ! j) = best_acc clf' \<and>
                  (\<forall>i < length es. j < i \<longrightarrow>
                     acc_epoch (epoch_ends be ds True es (clf, bep, bsd) ! i) < best_acc clf') \<and>
                  bsd' = snapshot (epoch_ends be ds True es (clf, bep, bsd) ! j) \<and>
                  bep' = start_epoch (epoch_ends be ds True es (clf, bep, bsd) ! j)))"
  using assms
proof (induction es arbitrary: clf bep bsd)
  case Nil
  then show ?case by simp
next
  case (Cons e es)
  from Cons.prems obtain u c1 where te: "train_epoch be ds clf e = (Inr u, c1)"
    by (cases "train_epoch be ds clf e") (auto split: sum.splits)
  from train_epoch_fields[OF te] have b1: "best_acc c1 = best_acc clf" .
  show ?case
  proof (cases "acc_epoch c1 < best_acc c1")
    case True
    then have st: "store_epoch True (c1, bep, bsd) = (c1, bep, bsd)"
      by (simp add: store_epoch_def)
    let ?obs = "epoch_ends be ds True es (c1, bep, bsd)"
    have obs: "epoch_ends be ds True (e # es) (clf, bep, bsd) = c1 # ?obs"
      using te st by simp
    from Cons.prems te st have "fit_epochs be ds True es (c1, bep, bsd) = (Inr (), clf', bep', bsd')"
      by simp
    note ih = Cons.IH[OF this]
    have len: "length ?obs = length es"
      by (rule ih[THEN conjunct1])
    have best: "best_acc clf' = fold max (map acc_epoch ?obs) (best_acc c1)"
      by (rule ih[THEN conjunct2, THEN conjunct1])
    have sel: "if \<forall>c \<in> set ?obs. acc_epoch c < best_acc c1 then bep' = bep \<and> bsd' = bsd
          else (\<exists>j < length es. acc_epoch (?obs ! j) = best_acc clf' \<and>
                  (\<forall>i < length es. j < i \<longrightarrow> acc_epoch (?obs ! i) < best_acc clf') \<and>
                  bsd' = snapshot (?obs ! j) \<and> bep' = start_epoch (?obs ! j))"
      by (rule ih[THEN conjunct2, THEN conjunct2])
    have best': "best_acc clf' = fold max (map acc_epoch (c1 # ?obs)) (best_acc clf)"
      using best True b1 by (simp add: max_def)
    show ?thesis
    proof (cases "\<forall>c \<in> set ?obs. acc_epoch c < best_acc c1")
      case all: True
      with sel have same: "bep' = bep \<and> bsd' = bsd" by simp
      have yall: "\<forall>c \<in> set (c1 # ?obs). acc_epoch c < best_acc clf"
        using all True b1 by simp
      show ?thesis
      proof (intro conjI)
        show "length (epoch_ends be ds True (e # es) (clf, bep, bsd)) = length (e # es)"
          unfolding obs using len by simp
        show "best_acc clf' =
            fold max (map acc_epoch (epoch_ends be ds True (e # es) (clf, bep, bsd))) (best_acc clf)"
          unfolding obs by (rule best')
      next
        show "if \<forall>c \<in> set (epoch_ends be ds True (e # es) (clf, bep, bsd)).
                   acc_epoch c < best_acc clf
          then bep' = bep \<and> bsd' = bsd
          else (\<exists>j < length (e # es).
                  acc_epoch (epoch_ends be ds True (e # es) (clf, bep, bsd) ! j) = best_acc clf' \<and>
                  (\<forall>i < length (e # es). j < i \<longrightarrow>
                     acc_epoch (epoch_ends be ds True (e # es) (clf, bep, bsd) ! i) < best_acc clf') \<and>
                  bsd' = snapshot (epoch_ends be ds True (e # es) (clf, bep, bsd) ! j) \<and>
                  bep' = start_epoch (epoch_ends be ds True (e # es) (clf, bep, bsd) ! j))"
          unfolding obs if_P[OF yall] by (rule same)
      qed
    next
      case False
      with sel obtain j where j: "j < length es" "acc_epoch (?obs ! j) = best_acc clf'"
        "\<forall>i < length es. j < i \<longrightarrow> acc_epoch (?obs ! i) < best_acc clf'"
        "bsd' = snapshot (?obs ! j)" "bep' = start_epoch (?obs ! j)" by auto
      have ex: "\<exists>j < length (e # es).
                  acc_epoch ((c1 # ?obs) ! j) = best_acc clf' \<and>
                  (\<forall>i < length (e # es). j < i \<longrightarrow> acc_epoch ((c1 # ?obs) ! i) < best_acc clf') \<and>
                  bsd' = snapshot ((c1 # ?obs) ! j) \<and> bep' = start_epoch ((c1 # ?obs) ! j)"
      proof (intro exI[of _ "Suc j"] conjI allI impI)
        show "Suc j < length (e # es)" using j(1) by simp
        show "acc_epoch ((c1 # ?obs) ! Suc j) = best_acc clf'" using j(2) by simp
        show "bsd' = snapshot ((c1 # ?obs) ! Suc j)" using j(4) by simp
        show "bep' = start_epoch ((c1 # ?obs) ! Suc j)" using j(5) by simp
        fix i assume "i < length (e # es)" "Suc j < i"
        then obtain i' where "i = Suc i'" "i' < length es" "j < i'" by (cases i) auto
        with j(3) show "acc_epoch ((c1 # ?obs) ! i) < best_acc clf'" by simp
      qed
      have nall: "\<not> (\<forall>c \<in> set (c1 # ?obs). acc_epoch c < best_acc clf)"
        using False b1 by auto
      show ?thesis
      proof (intro conjI)
        show "length (epoch_ends be ds True (e # es) (clf, bep, bsd)) = length (e # es)"
          unfolding obs using len by simp
        show "best_acc clf' =
            fold max (map acc_epoch (epoch_ends be ds True (e # es) (clf, bep, bsd))) (best_acc clf)"
          unfolding obs by (rule best')
      next
        show "if \<forall>c \<in> set (epoch_ends be ds True (e # es) (clf, bep, bsd)).
                   acc_epoch c < best_acc clf
          then bep' = bep \<and> bsd' = bsd
          else (\<exists>j < length (e # es).
                  acc_epoch (epoch_ends be ds True (e # es) (clf, bep, bsd) ! j) = best_acc clf' \<and>
                  (\<forall>i < length (e # es). j < i \<longrightarrow>
                     acc_epoch (epoch_ends be ds True (e # es) (clf, bep, bsd) ! i) < best_acc clf') \<and>
                  bsd' = snapshot (epoch_ends be ds True (e # es) (clf, bep, bsd) ! j) \<and>
                  bep' = start_epoch (epoch_ends be ds True (e # es) (clf, bep, bsd) ! j))"
          unfolding obs if_not_P[OF nall] by (rule ex)
      qed
    qed
  next
    case False
    define c where "c = c1 \<lparr> best_acc := acc_epoch c1 \<rparr>"
    have bb: "best_acc c = acc_epoch c1" and sc: "start_epoch c = start_epoch c1"
      and sn: "state_dict c = snapshot c1"
      by (simp_all add: c_def snapshot_def)
    from False have st: "store_epoch True (c1, bep, bsd) = (c, start_epoch c, state_dict c)"
      by (simp add: store_epoch_def Let_def c_def)
    let ?obs = "epoch_ends be ds True es (c, start_epoch c, state_dict c)"
    have obs: "epoch_ends be ds True (e # es) (clf, bep, bsd) = c1 # ?obs"
      using te st by simp
    from Cons.prems te st
    have "fit_epochs be ds True es (c, start_epoch c, state_dict c) = (Inr (), clf', bep', bsd')"
      by simp
    note ih = Cons.IH[OF this]
    have len: "length ?obs = length es"
      by (rule ih[THEN conjunct1])
    have best: "best_acc clf' = fold max (map acc_epoch ?obs) (acc_epoch c1)"
      using ih[THEN conjunct2, THEN conjunct1] unfolding bb .
    have sel: "if \<forall>c \<in> set ?obs. acc_epoch c < acc_epoch c1
          then bep' = start_epoch c \<and> bsd' = state_dict c
          else (\<exists>j < length es. acc_epoch (?obs ! j) = best_acc clf' \<and>
                  (\<forall>i < length es. j < i \<longrightarrow> acc_epoch (?obs ! i) < best_acc clf') \<and>
                  bsd' = snapshot (?obs ! j) \<and> bep' = start_epoch (?obs ! j))"
      using ih[THEN conjunct2, THEN conjunct2] unfolding bb .
    have best': "best_acc clf' = fold max (map acc_epoch (c1 # ?obs)) (best_acc clf)"
      using best False b1 by (simp add: max_def)
    have nall: "\<not> (\<forall>c \<in> set (c1 # ?obs). acc_epoch c < best_acc clf)"
      using False b1 by auto
    have ex: "\<exists>j < length (e # es).
                acc_epoch ((c1 # ?obs) ! j) = best_acc clf' \<and>
                (\<forall>i < length (e # es). j < i \<longrightarrow> acc_epoch ((c1 # ?obs) ! i) < best_acc clf') \<and>
                bsd' = snapshot ((c1 # ?obs) ! j) \<and> bep' = start_epoch ((c1 # ?obs) ! j)"
    proof (cases "\<forall>c \<in> set ?obs. acc_epoch c < acc_epoch c1")
      case all: True
      with sel have s: "bep' = start_epoch c" "bsd' = state_dict c" by simp_all
      from all have "fold max (map acc_epoch ?obs) (acc_epoch c1) = acc_epoch c1"
        by (intro fold_max_below) auto
      with best have bc: "best_acc clf' = acc_epoch c1" by simp
      show ?thesis
      proof (intro exI[of _ 0] conjI allI impI)
        show "0 < length (e # es)" by simp
        show "acc_epoch ((c1 # ?obs) ! 0) = best_acc clf'" using bc by simp
        show "bsd' = snapshot ((c1 # ?obs) ! 0)" using s sn by simp
        show "bep' = start_epoch ((c1 # ?obs) ! 0)" using s sc by simp
        fix i assume "i < length (e # es)" "0 < i"
        then obtain i' where i: "i = Suc i'" "i' < length es" by (cases i) auto
        with len have "?obs ! i' \<in> set ?obs" by simp
        with all have "acc_epoch (?obs ! i') < acc_epoch c1" by blast
        then show "acc_epoch ((c1 # ?obs) ! i) < best_acc clf'" using i bc by simp
      qed
    next
      case False
      with sel obtain j where j: "j < length es" "acc_epoch (?obs ! j) = best_acc clf'"
        "\<forall>i < length es. j < i \<longrightarrow> acc_epoch (?obs ! i) < best_acc clf'"
        "bsd' = snapshot (?obs ! j)" "bep' = start_epoch (?obs ! j)" by auto
      show ?thesis
      proof (intro exI[of _ "Suc j"] conjI allI impI)
        show "Suc j < length (e # es)" using j(1) by simp
        show "acc_epoch ((c1 # ?obs) ! Suc j) = best_acc clf'" using j(2) by simp
        show "bsd' = snapshot ((c1 # ?obs) ! Suc j)" using j(4) by simp
        show "bep' = start_epoch ((c1 # ?obs) ! Suc j)" using j(5) by simp
        fix i assume "i < length (e # es)" "Suc j < i"
        then obtain i' where "i = Suc i'" "i' < length es" "j < i'" by (cases i) auto
        with j(3) show "acc_epoch ((c1 # ?obs) ! i) < best_acc clf'" by simp
      qed
    qed
    show ?thesis
    proof (intro conjI)
      show "length (epoch_ends be ds True (e # es) (clf, bep, bsd)) = length (e # es)"
      unfolding obs using len by simp
      show "best_acc clf' =
        fold max (map acc_epoch (epoch_ends be ds True (e # es) (clf, bep, bsd))) (best_acc clf)"
      unfolding obs by (rule best')
    next
      show "if \<forall>c \<in> set (epoch_ends be ds True (e # es) (clf, bep, bsd)).
               acc_epoch c < best_acc clf
      then bep' = bep \<and> bsd' = bsd
      else (\<exists>j < length (e # es).
              acc_epoch (epoch_ends be ds True (e # es) (clf, bep, bsd) ! j) = best_acc clf' \<and>
              (\<forall>i < length (e # es). j < i \<longrightarrow>
                 acc_epoch (epoch_ends be ds True (e # es) (clf, bep, bsd) ! i) < best_acc clf') \<and>
              bsd' = snapshot (epoch_ends be ds True (e # es) (clf, bep, bsd) ! j) \<and>
              bep' = start_epoch (epoch_ends be ds True (e # es) (clf, bep, bsd) ! j))"
      unfolding obs if_not_P[OF nall] by (rule ex)
    qed
  qed
qed

lemma map_of_loaded:
  "map_of (map (\<lambda>(k, v). (k, the (map_of sd k))) ps) k =
     (if k \<in> set (map fst ps) then Some (the (map_of sd k)) else None)"
  by (induction ps) auto

lemma model_load_state_dict_map_of:
  assumes "model_load_state_dict m sd = Inr m'"
  shows "map_of (params m') = map_of sd"
proof
  fix k
  from assms have keys: "set (map fst sd) = set (map fst (params m))"
    and p: "params m' = map (\<lambda>(k, v). (k, the (map_of sd k))) (params m)"
    by (auto simp: model_load_state_dict_def split: if_splits)
  show "map_of (params m') k = map_of sd k"
  proof (cases "k \<in> set (map fst sd)")
    case True
    then obtain v where "map_of sd k = Some v"
      by (metis map_of_eq_None_iff not_None_eq set_map)
    then show ?thesis using True keys by (simp add: p map_of_loaded)
  next
    case False
    then have "map_of sd k = None" by (simp add: map_of_eq_None_iff)
    then show ?thesis using False keys by (simp add: p map_of_loaded)
  qed
qed

lemma load_input_shape_fields:
  assumes "load_input_shape be c r = (Inr (), c')"
  shows "model c' = model c" "start_epoch c' = start_epoch c" "best_acc c' = best_acc c"
    "acc_epoch c' = acc_epoch c"
  using assms unfolding load_input_shape_def Let_def
  by (auto split: sum.splits option.splits if_splits prod.splits)

lemma load_state_restores:
  assumes "load_state be c sd False = (Inr (), c')"
  shows "start_epoch c' = sd_epoch sd"
    and "best_acc c' = (case sd_best_acc sd of None \<Rightarrow> 0 | Some a \<Rightarrow> a)"
    and "acc_epoch c' = (case sd_acc sd of None \<Rightarrow> 0 | Some a \<Rightarrow> a)"
    and "map_of (params (model c')) = map_of (sd_state_dict sd)"
proof -
  let ?c1 = "load_defaults c (sd_optimizer sd)"
  from assms obtain opt where
    o: "optimizer_load_state_dict (optimizer ?c1) (sd_optimizer sd) = Inr opt"
    by (cases "optimizer_load_state_dict (optimizer ?c1) (sd_optimizer sd)")
       (auto simp: load_state_def Let_def)
  let ?c2 = "?c1 \<lparr> optimizer := opt, start_epoch := sd_epoch sd,
                    acc_epoch := (case sd_acc sd of None \<Rightarrow> 0 | Some a \<Rightarrow> a),
                    best_acc := (case sd_best_acc sd of None \<Rightarrow> 0 | Some a \<Rightarrow> a) \<rparr>"
  from assms o obtain m where
    m: "model_load_state_dict (model ?c2) (sd_state_dict sd) = Inr m"
    by (cases "model_load_state_dict (model ?c2) (sd_state_dict sd)")
       (auto simp: load_state_def Let_def)
  from assms o m have l: "load_input_shape be (?c2 \<lparr> model := m \<rparr>) (sd_input_shape sd) = (Inr (), c')"
    by (simp add: load_state_def Let_def)
  from load_input_shape_fields[OF l] model_load_state_dict_map_of[OF m]
  show "start_epoch c' = sd_epoch sd"
    and "best_acc c' = (case sd_best_acc sd of None \<Rightarrow> 0 | Some a \<Rightarrow> a)"
    and "acc_epoch c' = (case sd_acc sd of None \<Rightarrow> 0 | Some a \<Rightarrow> a)"
    and "map_of (params (model c')) = map_of (sd_state_dict sd)"
    by simp_all
qed

lemma snapshot_fields [simp]:
  "sd_epoch (snapshot c) = start_epoch c + 1" "sd_best_acc (snapshot c) = Some (acc_epoch c)"
  "sd_acc (snapshot c) = Some (acc_epoch c)" "sd_state_dict (snapshot c) = params (model c)"
  by (simp_all add: snapshot_def state_dict_def)

lemma fold_max_Max: "fold max xs (b::real) = Max (set (b # xs))"
  by (rule Max.set_eq_fold[symmetric])

text \<open>
  Claim C2, as the code has it. Let the training loop run with the best parameters
  stored, from \<open>start_epoch < epochs\<close> and from a best accuracy that is not above the
  accuracies of the epochs to come (it is 0 after a cold start), and let it succeed.
  Then it has run \<open>epochs - start_epoch\<close> epochs, the best accuracy it leaves is the
  maximum of the accuracies of these epochs, and the parameters it restores are those of
  the state copied at the last epoch that reached this maximum: every later epoch was
  strictly worse, and the epoch counter resumes after that epoch. On ties the latest
  epoch is chosen, not the first.
\<close>

theorem fit_restores_best:
  assumes ok: "u_fit be clf ds True = (Inr (), clf')"
    and run: "start_epoch clf < epochs clf"
    and low: "best_acc clf \<le> Max (set (map acc_epoch (fit_epoch_ends be clf ds True)))"
  shows "length (fit_epoch_ends be clf ds True) = nat (epochs clf - start_epoch clf) \<and>
         best_acc clf' = Max (set (map acc_epoch (fit_epoch_ends be clf ds True))) \<and>
         (\<exists>j < length (fit_epoch_ends be clf ds True).
            acc_epoch (fit_epoch_ends be clf ds True ! j) =
              Max (set (map acc_epoch (fit_epoch_ends be clf ds True))) \<and>
            (\<forall>i < length (fit_epoch_ends be clf ds True). j < i \<longrightarrow>
               acc_epoch (fit_epoch_ends be clf ds True ! i) <
                 Max (set (map acc_epoch (fit_epoch_ends be clf ds True)))) \<and>
            map_of (params (model clf')) =
              map_of (params (model (fit_epoch_ends be clf ds True ! j))) \<and>
            start_epoch clf' = start_epoch (fit_epoch_ends be clf ds True ! j) + 1)"
proof -
  let ?c1 = "train_mode clf"
  from ok run have bs: "\<not> batch_size clf \<le> 0"
    by (auto simp: u_fit_def split: if_splits)
  from ok run bs obtain opt where
    sch: "MultiStepLR be (lr_schedule ?c1) (gamma ?c1) (start_epoch ?c1 - 1) (optimizer ?c1) = Inr opt"
    by (cases "MultiStepLR be (lr_schedule ?c1) (gamma ?c1) (start_epoch ?c1 - 1) (optimizer ?c1)")
       (auto simp: u_fit_def Let_def)
  define c2 where "c2 = ?c1 \<lparr> optimizer := opt \<rparr>"
  define es where "es = [start_epoch c2..epochs c2 - 1]"
  have c2f: "start_epoch c2 = start_epoch clf" "epochs c2 = epochs clf" "best_acc c2 = best_acc clf"
    by (simp_all add: c2_def train_mode_def)
  define obs where "obs = epoch_ends be ds True es (c2, start_epoch c2, state_dict c2)"
  have obs: "fit_epoch_ends be clf ds True = obs"
    using sch by (simp add: fit_epoch_ends_def Let_def obs_def es_def c2_def)
  obtain r c3 bep bsd where
    fe: "fit_epochs be ds True es (c2, start_epoch c2, state_dict c2) = (r, c3, bep, bsd)"
    by (metis prod_cases4)
  from ok run bs sch fe have r: "r = Inr ()" and ld: "load_state be c3 bsd False = (Inr (), clf')"
    by (auto simp: u_fit_def Let_def c2_def es_def split: sum.splits)
  note inv = fit_epochs_best[OF fe[unfolded r], folded obs_def]
  have len: "length obs = length es" by (rule inv[THEN conjunct1])
  have best: "best_acc c3 = fold max (map acc_epoch obs) (best_acc c2)"
    by (rule inv[THEN conjunct2, THEN conjunct1])
  note sel = inv[THEN conjunct2, THEN conjunct2]
  have les: "length es = nat (epochs clf - start_epoch clf)"
    using run by (simp add: es_def c2f)
  with run len have ne: "obs \<noteq> []" by auto
  let ?M = "Max (set (map acc_epoch obs))"
  from low have low': "best_acc c2 \<le> ?M" by (simp add: obs c2f)
  have bM: "best_acc c3 = ?M"
    unfolding best fold_max_Max using ne low' by (simp add: max_def)
  have "?M \<in> set (map acc_epoch obs)"
    using ne by (intro Max_in) auto
  then obtain c where "c \<in> set obs" "acc_epoch c = ?M" by auto
  with low' have nall: "\<not> (\<forall>c \<in> set obs. acc_epoch c < best_acc c2)" by force
  from sel[unfolded if_not_P[OF nall]] obtain j where j: "j < length es"
    "acc_epoch (obs ! j) = best_acc c3"
    "\<forall>i < length es. j < i \<longrightarrow> acc_epoch (obs ! i) < best_acc c3"
    "bsd = snapshot (obs ! j)" by blast
  from load_state_restores[OF ld] j(4)
  have fin: "start_epoch clf' = start_epoch (obs ! j) + 1" "best_acc clf' = acc_epoch (obs ! j)"
    "map_of (params (model clf')) = map_of (params (model (obs ! j)))"
    by simp_all
  show ?thesis
    unfolding obs using len les j(1,2,3) fin bM by auto
qed

lemmas fit_eval = u_fit_def fit_epoch_ends_def train_epoch_def store_epoch_def state_dict_def
  optimizer_state_dict_def load_state_def load_defaults_def load_input_shape_def
  optimizer_load_state_dict_def model_load_state_dict_def set_regularize_bias_def rekey_def
  multi_step_lr_def multi_step_def ordered_batches_def descend_def batch_accuracy_def
  loss_def meter_update_def avg_def get_labels_asbinary_def ds_classes_def
  train_mode_def linear_torch_def linear_classifier_def demo_classifier_def demo_dataset_def
  init_optimizer_def SGD_def parameters_def linear_params_def fc_def Linear_def lookup_def
  matvec_def squeeze1_def argmax_def batch_shape_def Let_def chunks.simps upto.simps
  eval_nat_numeral

lemma demo_epoch_ends:
  "map (\<lambda>c. (acc_epoch c, start_epoch c, params (model c)))
     (fit_epoch_ends (linear_torch 2 2) demo_classifier demo_dataset True) =
   [(1 / 2, 0, [(''fc.weight'', Tensor [2, 2] [49 / 50, 99 / 50, 149 / 50, 199 / 50]),
               (''fc.bias'', Tensor [2] [- (1 / 50), - (1 / 50)])]),
    (1 / 2, 1, [(''fc.weight'', Tensor [2, 2] [24 / 25, 49 / 25, 74 / 25, 99 / 25]),
               (''fc.bias'', Tensor [2] [- (1 / 25), - (1 / 25)])])]"
  by (simp add: fit_eval)

lemma demo_fit:
  "fst (u_fit (linear_torch 2 2) demo_classifier demo_dataset True) = Inr ()"
  "params (model (snd (u_fit (linear_torch 2 2) demo_classifier demo_dataset True))) =
     [(''fc.weight'', Tensor [2, 2] [24 / 25, 49 / 25, 74 / 25, 99 / 25]),
      (''fc.bias'', Tensor [2] [- (1 / 25), - (1 / 25)])]"
  "best_acc (snd (u_fit (linear_torch 2 2) demo_classifier demo_dataset True)) = 1 / 2"
  "start_epoch (snd (u_fit (linear_torch 2 2) demo_classifier demo_dataset True)) = 2"
  by (simp_all add: fit_eval)

lemma demo_epoch_accuracies:
  "map acc_epoch (fit_epoch_ends (linear_torch 2 2) demo_classifier demo_dataset True) =
     [1 / 2, 1 / 2]"
  using arg_cong[OF demo_epoch_ends, of "map fst"] by (simp add: o_def)

lemma demo_epoch_params:
  "map (\<lambda>c. params (model c))
     (fit_epoch_ends (linear_torch 2 2) demo_classifier demo_dataset True) =
   [[(''fc.weight'', Tensor [2, 2] [49 / 50, 99 / 50, 149 / 50, 199 / 50]),
     (''fc.bias'', Tensor [2] [- (1 / 50), - (1 / 50)])],
    [(''fc.weight'', Tensor [2, 2] [24 / 25, 49 / 25, 74 / 25, 99 / 25]),
     (''fc.bias'', Tensor [2] [- (1 / 25), - (1 / 25)])]]"
  using arg_cong[OF demo_epoch_ends, of "map (snd \<circ> snd)"] by (simp add: o_def)

theorem fit_restores_best_witness:
  "u_fit (linear_torch 2 2) demo_classifier demo_dataset True =
     (Inr (), snd (u_fit (linear_torch 2 2) demo_classifier demo_dataset True)) \<and>
   length (fit_epoch_ends (linear_torch 2 2) demo_classifier demo_dataset True) = 2 \<and>
   best_acc (snd (u_fit (linear_torch 2 2) demo_classifier demo_dataset True)) =
     Max (set (map acc_epoch
       (fit_epoch_ends (linear_torch 2 2) demo_classifier demo_dataset True)))"
proof -
  have ok: "u_fit (linear_torch 2 2) demo_classifier demo_dataset True =
      (Inr (), snd (u_fit (linear_torch 2 2) demo_classifier demo_dataset True))"
    using demo_fit(1) by (metis prod.collapse)
  have run: "start_epoch demo_classifier < epochs demo_classifier" by simp
  have low: "best_acc demo_classifier \<le>
      Max (set (map acc_epoch
        (fit_epoch_ends (linear_torch 2 2) demo_classifier demo_dataset True)))"
    unfolding demo_epoch_accuracies
    by (simp add: demo_classifier_def linear_classifier_def init_optimizer_def Let_def)
  from fit_restores_best [OF ok run low] ok show ?thesis by simp
qed

text \<open>
  The run that refutes "the first such epoch on ties": two epochs on two samples reach
  the same accuracy \<open>1/2\<close>; the parameters restored are those of the second epoch and
  not those of the first.
\<close>

theorem fit_restores_first_best_counterexample:
  "fst (u_fit (linear_torch 2 2) demo_classifier demo_dataset True) = Inr () \<and>
   map acc_epoch (fit_epoch_ends (linear_torch 2 2) demo_classifier demo_dataset True) =
     [1 / 2, 1 / 2] \<and>
   params (model (snd (u_fit (linear_torch 2 2) demo_classifier demo_dataset True))) =
     params (model (fit_epoch_ends (linear_torch 2 2) demo_classifier demo_dataset True ! 1)) \<and>
   map_of (params (model (snd (u_fit (linear_torch 2 2) demo_classifier demo_dataset True))))
       ''fc.bias'' \<noteq>
     map_of (params (model
       (fit_epoch_ends (linear_torch 2 2) demo_classifier demo_dataset True ! 0))) ''fc.bias''"
proof -
  have n: "params (model (fit_epoch_ends (linear_torch 2 2) demo_classifier demo_dataset True ! i)) =
      map (\<lambda>c. params (model c))
        (fit_epoch_ends (linear_torch 2 2) demo_classifier demo_dataset True) ! i"
    if "i < 2" for i
    using that arg_cong[OF demo_epoch_accuracies, of length] by simp
  show ?thesis
    by (simp add: demo_fit demo_epoch_accuracies n demo_epoch_params)
qed

subsection \<open>The gradient of a class score\<close>

lemma linear_score_partial:
  assumes j: "j < length x" and len: "length row = length x"
  shows "((\<lambda>t. sum_list (map2 (*) row (x[j := t])) + bk) has_real_derivative row ! j) (at t0)"
proof -
  have eq: "sum_list (map2 (*) row (x[j := t])) =
      (\<Sum>i = 0..<length x. row ! i * (if i = j then t else x ! i))" for t
  proof -
    have "sum_list (map2 (*) row (x[j := t])) =
        (\<Sum>i = 0..<length x. map2 (*) row (x[j := t]) ! i)"
      using len by (simp add: sum_list_sum_nth)
    also have "\<dots> = (\<Sum>i = 0..<length x. row ! i * (if i = j then t else x ! i))"
      using len by (intro sum.cong refl) (simp add: nth_list_update)
    finally show ?thesis .
  qed
  have d: "((\<lambda>t. row ! i * (if i = j then t else x ! i)) has_real_derivative
            (if i = j then row ! j else 0)) (at t0)" for i
    by (auto intro!: derivative_eq_intros)
  have "((\<lambda>t. (\<Sum>i = 0..<length x. row ! i * (if i = j then t else x ! i)) + bk)
          has_real_derivative (\<Sum>i = 0..<length x. if i = j then row ! j else 0) + 0) (at t0)"
    by (intro DERIV_add DERIV_sum d DERIV_const)
  moreover have "(\<Sum>i = 0..<length x. if i = j then row ! j else 0) = row ! j"
    using j by (simp add: sum.delta)
  ultimately show ?thesis by (simp add: eq)
qed

lemma linear_layer_partial:
  assumes "k < length W" and "length b = length W" and "length (W ! k) = length x"
    and "j < length x"
  shows "((\<lambda>t. map2 (+) (matvec W (x[j := t])) b ! k) has_real_derivative W ! k ! j) (at t0)"
proof -
  have "map2 (+) (matvec W (x[j := t])) b ! k =
        sum_list (map2 (*) (W ! k) (x[j := t])) + b ! k" for t
    using assms(1,2) by (simp add: matvec_def)
  with linear_score_partial[OF assms(4) assms(3), of "b ! k" t0] show ?thesis by simp
qed

lemma length_one_hot [simp]: "length (one_hot n k) = n"
  by (simp add: one_hot_def)

lemma gradient_prefix:
  assumes vec: "is_vector_like x" and bs: "0 < batch_size clf"
    and rs: "reshape (input_shape clf) (atleast_2d x ! 0) = Inr s0"
    and out: "tracked_output be clf s0 = Inr out"
  shows "u_gradient_f be clf x y None None =
     (case y of
        None \<Rightarrow> (Inl (ValueError
                  ''The class label wrt compute the gradient at the last layer is required.''),
                 eval_mode clf)
      | Some k \<Rightarrow>
          if k < last (batch_shape (fst out)) then
            (if softmax_outputs clf then
               (case CSoftmax_gradient (concat (map vals (fst out))) k of
                  Inl e \<Rightarrow> (Inl e, eval_mode clf)
                | Inr softmax_grad \<Rightarrow>
                    (case scale_seed [one_hot (last (batch_shape (fst out))) k] softmax_grad of
                       Inl e \<Rightarrow> (Inl e, eval_mode clf)
                     | Inr w_in \<Rightarrow>
                         (case snd out [Tensor [length w_in,
                                  (case w_in of [] \<Rightarrow> 0 | r # rs \<Rightarrow> length r)] (concat w_in)] of
                            Inl e \<Rightarrow> (Inl e, eval_mode clf)
                          | Inr grad \<Rightarrow> (Inr (concat (map vals grad)), eval_mode clf))))
             else
               (case snd out [Tensor [1, last (batch_shape (fst out))]
                               (one_hot (last (batch_shape (fst out))) k)] of
                  Inl e \<Rightarrow> (Inl e, eval_mode clf)
                | Inr grad \<Rightarrow> (Inr (concat (map vals grad)), eval_mode clf)))
          else (Inl IndexError, eval_mode clf))"
proof -
  from vec have len: "0 < length (atleast_2d x)"
    by (cases x) auto
  have dl: "u_get_test_input_loader clf (atleast_2d x) =
      Inr \<lparr> dl_X = atleast_2d x, dl_batch_size = nat (batch_size clf),
            dl_transform = input_shape clf \<rparr>"
    using bs by (simp add: u_get_test_input_loader_def)
  have gi: "getitem (input_shape clf) (atleast_2d x) 0 = Inr (s0, Tensor [] [- 1])"
    using len rs by (simp add: getitem_def)
  from out obtain out0 where
    am: "apply_module (call be (model (eval_mode clf))) (leaf [s0]) = Inr out0"
    and o: "out = (if length (batch_shape (fst out0)) < length (batch_shape [s0])
                   then unsqueeze_var out0 else out0)"
    by (auto simp: tracked_output_def split: sum.splits)
  have lo: "u_get_layer_output be clf (leaf [s0]) None = (Inr out0, eval_mode clf)"
    using am by (simp add: u_get_layer_output_def Let_def)
  have fl: "fst (leaf [s0]) = [s0]" by (simp add: leaf_def)
  have so: "softmax_outputs (eval_mode clf) = softmax_outputs clf"
    by (simp add: eval_mode_def)
  show ?thesis
    unfolding u_gradient_f_def
    using vec
    by (simp add: dl gi lo fl o[symmetric] so Let_def split: option.splits sum.splits)
qed

lemma chunks_concat:
  "list_all (\<lambda>r. length r = d) W \<Longrightarrow> 0 < d \<Longrightarrow> chunks d (concat W) = W"
proof (induction W)
  case Nil
  then show ?case by (simp add: chunks.simps)
next
  case (Cons r W)
  then have r: "length r = d" "r \<noteq> []" and W: "list_all (\<lambda>r. length r = d) W" by auto
  have "chunks d (concat (r # W)) = take d (r @ concat W) # chunks d (drop d (r @ concat W))"
    using r Cons.prems(2) by (subst chunks.simps) simp
  also have "\<dots> = r # chunks d (concat W)" using r by simp
  finally show ?case using Cons.IH[OF W Cons.prems(2)] by simp
qed

lemma sum_list_one_hot:
  assumes "k < length W"
  shows "sum_list (map2 (\<lambda>gi row. gi * f row) (one_hot (length W) k) W) = (f (W ! k) :: real)"
proof -
  have "sum_list (map2 (\<lambda>gi row. gi * f row) (one_hot (length W) k) W) =
        (\<Sum>i = 0..<length W. (if i = k then 1 else 0) * f (W ! i))"
    by (simp add: sum_list_sum_nth one_hot_def)
  also have "\<dots> = (\<Sum>i = 0..<length W. if i = k then f (W ! i) else 0)"
    by (intro sum.cong) auto
  also have "\<dots> = f (W ! k)"
    using assms by (simp add: sum.delta)
  finally show ?thesis .
qed

lemma vecmat_one_hot:
  assumes "k < length W" and "length (W ! k) = d"
  shows "vecmat (one_hot (length W) k) W d = W ! k"
proof -
  have "vecmat (one_hot (length W) k) W d = map (\<lambda>j. W ! k ! j) [0..<d]"
    unfolding vecmat_def using sum_list_one_hot[OF assms(1)] by simp
  also have "\<dots> = W ! k" using assms(2) map_nth[of "W ! k"] by simp
  finally show ?thesis .
qed

lemma linear_classifier_fields [simp]:
  "batch_size (linear_classifier W b d) = 1" "input_shape (linear_classifier W b d) = Some [d]"
  "softmax_outputs (linear_classifier W b d) = False"
  "params (model (linear_classifier W b d)) = linear_params W b d"
  by (simp_all add: linear_classifier_def init_optimizer_def Let_def)

lemma linear_tracked_output:
  assumes W: "list_all (\<lambda>r. length r = d) W" and d: "0 < d" and b: "length b = length W"
    and v: "length v = d" and k: "k < length W"
  shows "\<exists>out. tracked_output (linear_torch d c) (linear_classifier W b d) (Tensor [d] v) = Inr out \<and>
           last (batch_shape (fst out)) = length W \<and>
           snd out [Tensor [1, length W] (one_hot (length W) k)] = Inr [Tensor [d] (W ! k)]"
proof -
  from W k have "length (W ! k) = d" by (simp add: list_all_length)
  from vecmat_one_hot[OF k this] show ?thesis
    using v
    by (simp add: tracked_output_def apply_module_def leaf_def linear_torch_def fc_def Linear_def
          eval_mode_def lookup_def linear_params_def chunks_concat[OF W d] batch_shape_def
          unsqueeze_var_def)
qed

lemma linear_gradient_row:
  assumes W: "list_all (\<lambda>r. length r = d) W" and d: "0 < d" and b: "length b = length W"
    and v: "length v = d" and k: "k < length W"
  shows "fst (u_gradient_f (linear_torch d c) (linear_classifier W b d) (Flat v) (Some k) None None) =
           Inr (W ! k)"
proof -
  from linear_tracked_output[OF assms, of c] obtain out where
    out: "tracked_output (linear_torch d c) (linear_classifier W b d) (Tensor [d] v) = Inr out"
    and C: "last (batch_shape (fst out)) = length W"
    and pb: "snd out [Tensor [1, length W] (one_hot (length W) k)] = Inr [Tensor [d] (W ! k)]"
    by blast
  have rs: "reshape (input_shape (linear_classifier W b d)) (atleast_2d (Flat v) ! 0) =
      Inr (Tensor [d] v)"
    using v by (simp add: reshape_def)
  show ?thesis
    using pb by (subst gradient_prefix[OF _ _ rs out]) (simp_all add: C k)
qed

text \<open>
  Claim C5, as the code has it. Let \<open>x\<close> be a single sample that the loader can
  reshape, with no layer and no direction given and softmax post-processing disabled,
  and let the network run on it. Without a class index the gradient raises the error
  "The class label ... is required". With the class index \<open>k\<close> inside the width
  \<open>C\<close> of the output it back-propagates the one-hot seed of width \<open>C\<close> with its 1 at
  \<open>k\<close> and returns what reaches the input, flattened: the gradient of the raw score of
  class \<open>k\<close>. For the network of one linear layer with weight matrix \<open>W\<close> this is row
  \<open>k\<close> of \<open>W\<close>, which by lemma \<open>linear_layer_partial\<close> is the vector of the partial
  derivatives of score \<open>k\<close>.
\<close>

theorem gradient_class_score:
  "(is_vector_like x \<and> 0 < batch_size clf \<and> softmax_outputs clf = False \<and>
    reshape (input_shape clf) (atleast_2d x ! 0) = Inr s0 \<and>
    tracked_output be clf s0 = Inr out \<longrightarrow>
      u_gradient_f be clf x None None None =
        (Inl (ValueError
           ''The class label wrt compute the gradient at the last layer is required.''),
         eval_mode clf) \<and>
      u_gradient_f be clf x (Some k) None None =
        (if k < last (batch_shape (fst out)) then
           (case snd out [Tensor [1, last (batch_shape (fst out))]
                           (one_hot (last (batch_shape (fst out))) k)] of
              Inl e \<Rightarrow> (Inl e, eval_mode clf)
            | Inr grad \<Rightarrow> (Inr (concat (map vals grad)), eval_mode clf))
         else (Inl IndexError, eval_mode clf))) \<and>
   (list_all (\<lambda>r. length r = d) W \<and> 0 < d \<and> length b = length W \<and> length v = d \<and>
    k < length W \<longrightarrow>
      fst (u_gradient_f (linear_torch d c) (linear_classifier W b d) (Flat v) (Some k)
             None None) = Inr (W ! k))"
proof (intro conjI impI)
  assume a: "is_vector_like x \<and> 0 < batch_size clf \<and> softmax_outputs clf = False \<and>
    reshape (input_shape clf) (atleast_2d x ! 0) = Inr s0 \<and>
    tracked_output be clf s0 = Inr out"
  then have vec: "is_vector_like x" and bs: "0 < batch_size clf"
    and sm: "softmax_outputs clf = False"
    and rs: "reshape (input_shape clf) (atleast_2d x ! 0) = Inr s0"
    and out: "tracked_output be clf s0 = Inr out" by simp_all
  show "u_gradient_f be clf x None None None =
        (Inl (ValueError
           ''The class label wrt compute the gradient at the last layer is required.''),
         eval_mode clf)"
    by (simp add: gradient_prefix[OF vec bs rs out])
  show "u_gradient_f be clf x (Some k) None None =
        (if k < last (batch_shape (fst out)) then
           (case snd out [Tensor [1, last (batch_shape (fst out))]
                           (one_hot (last (batch_shape (fst out))) k)] of
              Inl e \<Rightarrow> (Inl e, eval_mode clf)
            | Inr grad \<Rightarrow> (Inr (concat (map vals grad)), eval_mode clf))
         else (Inl IndexError, eval_mode clf))"
    by (simp add: gradient_prefix[OF vec bs rs out] sm)
next
  assume "list_all (\<lambda>r. length r = d) W \<and> 0 < d \<and> length b = length W \<and> length v = d \<and>
    k < length W"
  then show "fst (u_gradient_f (linear_torch d c) (linear_classifier W b d) (Flat v) (Some k)
             None None) = Inr (W ! k)"
    by (intro linear_gradient_row) simp_all
qed

theorem gradient_class_score_witness:
  "u_gradient_f (linear_torch 2 2) demo_classifier (Flat [5, 6]) None None None =
     (Inl (ValueError ''The class label wrt compute the gradient at the last layer is required.''),
      eval_mode demo_classifier) \<and>
   fst (u_gradient_f (linear_torch 2 2) demo_classifier (Flat [5, 6]) (Some 1) None None) =
     Inr [3, 4]"
proof -
  have W: "list_all (\<lambda>r. length r = 2) [[1, 2], [3, 4 :: real]]" by simp
  from linear_tracked_output[OF W, of "[0, 0]" "[5, 6]" 1 2] obtain out where
    out: "tracked_output (linear_torch 2 2) demo_classifier (Tensor [2] [5, 6]) = Inr out"
    by (auto simp: demo_classifier_def)
  have rs: "reshape (input_shape demo_classifier) (atleast_2d (Flat [5, 6]) ! 0) =
      Inr (Tensor [2] [5, 6])"
    by (simp add: reshape_def)
  have g: "u_gradient_f (linear_torch 2 2) demo_classifier (Flat [5, 6]) None None None =
     (Inl (ValueError ''The class label wrt compute the gradient at the last layer is required.''),
      eval_mode demo_classifier)"
    using gradient_class_score [of "Flat [5, 6]" demo_classifier "Tensor [2] [5, 6]"
        "linear_torch 2 2" out] rs out
    by simp
  have l: "fst (u_gradient_f (linear_torch 2 2) demo_classifier (Flat [5, 6]) (Some 1) None None) =
     Inr [3, 4]"
    using gradient_class_score [of _ _ _ _ _ 1 2 "[[1, 2], [3, 4]]" "[0, 0]" "[5, 6]" 2]
    by (simp add: demo_classifier_def)
  from g l show ?thesis by simp
qed

lemmas gradient_eval = u_gradient_f_def u_get_layer_output_def u_get_test_input_loader_def
  getitem_def reshape_def eval_mode_def linear_torch_def fc_def Linear_def lookup_def
  linear_params_def matvec_def vecmat_def leaf_def apply_module_def
  batch_shape_def one_hot_def scale_seed_def Let_def CSoftmax_gradient_def softmax_row_def
  chunks.simps upt_rec

text \<open>
  With softmax post-processing enabled the seed is scaled by the softmax Jacobian and is
  no longer one-hot: at the input \<open>(0, 0)\<close> of the layer with rows \<open>(1, 2)\<close> and
  \<open>(3, 4)\<close> the gradient for class 0 is \<open>(1/4, 1/2)\<close>, not row 0 of the weights.
\<close>

theorem gradient_softmax_counterexample:
  "fst (u_gradient_f (linear_torch 2 2)
          ((linear_classifier [[1, 2], [3, 4]] [0, 0] 2) \<lparr> softmax_outputs := True \<rparr>)
          (Flat [0, 0]) (Some 0) None None) = Inr [1 / 4, 1 / 2] \<and>
   [[1, 2], [3, 4]] ! 0 \<noteq> [1 / 4, 1 / 2 :: real]"
  by (simp add: gradient_eval)

end
